theory Spec2Isabelle
  imports Main "HOL-Library.Word" "HOL-Library.Code_Target_Nat"
begin

section \<open>Go library functions used by the program\<close>

text \<open>
  Go strings are byte sequences, modelled as \<^typ>\<open>string\<close>. The functions of this section
  are the ones of Go's \<open>strings\<close> and \<open>path/filepath\<close> packages (Unix flavour, separator
  \<open>/\<close>, no volume names) that the program calls. Case mapping and white space are the
  ASCII ones: bytes above 127 are left alone.
\<close>

definition IsPathSeparator :: "char \<Rightarrow> bool" where
  "IsPathSeparator c = (c = CHR ''/'')"

definition lower_byte :: "char \<Rightarrow> char" where
  "lower_byte c =
     (let n = (of_char c :: nat)
      in if 65 \<le> n \<and> n \<le> 90 then char_of (n + 32) else c)"

definition ToLower :: "string \<Rightarrow> string" where
  "ToLower s = map lower_byte s"

definition is_space :: "char \<Rightarrow> bool" where
  "is_space c = ((of_char c :: nat) \<in> {9, 10, 11, 12, 13, 32})"

definition TrimSpace :: "string \<Rightarrow> string" where
  "TrimSpace s = rev (dropWhile is_space (rev (dropWhile is_space s)))"

definition HasPrefix :: "string \<Rightarrow> string \<Rightarrow> bool" where
  "HasPrefix s p = (length s \<ge> length p \<and> take (length p) s = p)"

definition HasSuffix :: "string \<Rightarrow> string \<Rightarrow> bool" where
  "HasSuffix s x = (length s \<ge> length x \<and> drop (length s - length x) s = x)"

definition TrimPrefix :: "string \<Rightarrow> string \<Rightarrow> string" where
  "TrimPrefix s p = (if HasPrefix s p then drop (length p) s else s)"

definition TrimSuffix :: "string \<Rightarrow> string \<Rightarrow> string" where
  "TrimSuffix s x = (if HasSuffix s x then take (length s - length x) s else s)"

text \<open>
  \<open>strings.Split(s, sep)\<close> for a one-byte separator: the pieces between the separators, in
  order; \<open>n\<close> separators give \<open>n + 1\<close> pieces, some possibly empty. The second argument
  of \<open>split_from\<close> is the piece being read, reversed.
\<close>

fun split_from :: "char \<Rightarrow> string \<Rightarrow> string \<Rightarrow> string list" where
  "split_from sep cur [] = [rev cur]"
| "split_from sep cur (c # cs) =
     (if c = sep then rev cur # split_from sep [] cs else split_from sep (c # cur) cs)"

definition Split :: "string \<Rightarrow> char \<Rightarrow> string list" where
  "Split s sep = split_from sep [] s"

text \<open>
  \<open>filepath.Ext\<close>: the loop runs \<open>i\<close> from the last byte down while \<open>path[i]\<close> is no
  separator and returns \<open>path[i:]\<close> at the first dot. \<open>ext_scan\<close> walks the reversed path
  and keeps the bytes already passed.
\<close>

fun ext_scan :: "string \<Rightarrow> string \<Rightarrow> string" where
  "ext_scan [] seen = []"
| "ext_scan (c # cs) seen =
     (if IsPathSeparator c then []
      else if c = CHR ''.'' then c # seen
      else ext_scan cs (c # seen))"

definition Ext :: "string \<Rightarrow> string" where
  "Ext path = ext_scan (rev path) []"

text \<open>
  \<open>filepath.Base\<close>: the empty path gives \<open>.\<close>; trailing separators are stripped; the last
  element is what follows the last separator; a path of separators only gives \<open>/\<close>.
\<close>

definition Base :: "string \<Rightarrow> string" where
  "Base path =
     (if path = [] then ''.''
      else
        let stripped = rev (dropWhile IsPathSeparator (rev path));
            element = rev (takeWhile (\<lambda>c. \<not> IsPathSeparator c) (rev stripped))
        in if element = [] then ''/'' else element)"

text \<open>
  \<open>filepath.Clean\<close> works on the elements of the path: empty elements and \<open>.\<close> are
  dropped, \<open>..\<close> removes the element before it (at the root it is dropped, at the start
  of a relative path it stays). \<open>clean_elems\<close> keeps the elements written so far,
  last one first.
\<close>

fun clean_elems :: "bool \<Rightarrow> string list \<Rightarrow> string list \<Rightarrow> string list" where
  "clean_elems rooted done [] = rev done"
| "clean_elems rooted done (e # es) =
     (if e = [] \<or> e = ''.'' then clean_elems rooted done es
      else if e = ''..'' then
        (case done of
           [] \<Rightarrow> if rooted then clean_elems rooted [] es else clean_elems rooted [''..''] es
         | d # ds \<Rightarrow>
             if d = ''..'' then clean_elems rooted (''..'' # done) es
             else clean_elems rooted ds es)
      else clean_elems rooted (e # done) es)"

fun join_with :: "string \<Rightarrow> string list \<Rightarrow> string" where
  "join_with sep [] = []"
| "join_with sep [e] = e"
| "join_with sep (e # es) = e @ sep @ join_with sep es"

definition Clean :: "string \<Rightarrow> string" where
  "Clean path =
     (if path = [] then ''.''
      else
        let rooted = IsPathSeparator (hd path);
            body = join_with ''/'' (clean_elems rooted [] (Split path CHR ''/''))
        in if rooted then CHR ''/'' # body
           else if body = [] then ''.'' else body)"

text \<open>\<open>filepath.Join\<close> of two elements: empty elements are ignored, the rest is cleaned.\<close>

definition Join :: "string \<Rightarrow> string \<Rightarrow> string" where
  "Join a b =
     (if a \<noteq> [] then Clean (a @ ''/'' @ b)
      else if b \<noteq> [] then Clean b
      else [])"

section \<open>Package config\<close>

text \<open>
  \<open>ParseExtensions\<close> builds a Go \<open>map[string]struct{}\<close>, the language's set of strings:
  a key is in the map or not, never twice. It is a \<^typ>\<open>string set\<close> here.
\<close>

definition ParseExtensions :: "string \<Rightarrow> string set" where
  "ParseExtensions raw =
     (if raw = [] then {}
      else fold (\<lambda>e result.
                   let e1 = TrimSpace e;
                       e2 = ToLower e1;
                       e3 = TrimPrefix e2 ''.''
                   in if e3 \<noteq> [] then insert e3 result else result)
                (Split raw CHR '','') {})"

section \<open>Package watcher: the extension filter\<close>

definition allowed :: "string \<Rightarrow> string set \<Rightarrow> bool" where
  "allowed path exts =
     (if exts = {} then True
      else TrimPrefix (ToLower (Ext path)) ''.'' \<in> exts)"

section \<open>The world the uploader runs in\<close>

text \<open>
  The uploader works on the file system and talks to a server. The file system is a map
  from files to contents; \<open>calls\<close> counts the system calls made so far, and \<open>sent\<close>
  lists the requests handed to the HTTP client. What the program cannot decide is a
  parameter (\<open>sys\<close>): whether the system call with a given number fails for a reason the
  map does not show (permissions, another device, a full disk), how many bytes a failing
  copy has written by then, the temporary directory, the identifiers \<open>uuid.New\<close> hands
  out, the MIME table, which URLs parse, and what \<open>client.Do\<close> hands back for a request
  (the response it ends with, redirects followed, or \<open>None\<close> when it returns an error: a
  transport error).

  A path is a string, and several strings can name one file: a relative and an absolute
  path, a path that is not clean, a path through a symbolic link, a hard link. Which
  file a path names is the parameter \<open>resolve\<close>; the file system is keyed by what
  \<open>resolve\<close> returns, and every system call resolves the paths it is given. Two paths
  name the same file exactly when they resolve to the same key. (A file is present or
  absent as a whole: removing one of several hard links of a file is not represented.)
\<close>

datatype os_error = ErrNotExist | ErrOther

datatype error =
    OsError os_error
  | RequestError
  | TransportError
  | StatusError int string
  | Wrapped string error

record http_response =
  StatusCode :: int
  RespBody :: string

record http_request =
  req_url :: string
  req_authorization :: string
  req_user_agent :: string
  doc_disposition :: string
  doc_content_type :: string
  doc_content :: string
  title_value :: string

record sys =
  resolve :: "string \<Rightarrow> string"
  fails :: "nat \<Rightarrow> bool"
  short_write :: "nat \<Rightarrow> nat"
  TempDir :: string
  new_uuid :: "nat \<Rightarrow> string"
  TypeByExtension :: "string \<Rightarrow> string"
  url_parses :: "string \<Rightarrow> bool"
  server :: "http_request \<Rightarrow> http_response option"

record world =
  files :: "string \<rightharpoonup> string"
  calls :: nat
  sent :: "http_request list"

type_synonym 'a result = "(error + 'a) \<times> world"

definition called :: "world \<Rightarrow> world" where
  "called w = w\<lparr>calls := Suc (calls w)\<rparr>"

text \<open>
  An open file is the file its path named when it was opened (its key): reading it gives
  what that file holds then.
\<close>

definition os_Open :: "sys \<Rightarrow> string \<Rightarrow> world \<Rightarrow> string result" where
  "os_Open e name w =
     (if files w (resolve e name) = None then (Inl (OsError ErrNotExist), called w)
      else if fails e (calls w) then (Inl (OsError ErrOther), called w)
      else (Inr (resolve e name), called w))"

definition os_Create :: "sys \<Rightarrow> string \<Rightarrow> world \<Rightarrow> string result" where
  "os_Create e name w =
     (if fails e (calls w) then (Inl (OsError ErrOther), called w)
      else (Inr (resolve e name), called (w\<lparr>files := (files w)(resolve e name \<mapsto> [])\<rparr>)))"

definition contents :: "world \<Rightarrow> string \<Rightarrow> string" where
  "contents w key = (case files w key of None \<Rightarrow> [] | Some c \<Rightarrow> c)"

text \<open>
  \<open>io.Copy(out, in)\<close> into a file just created: on success the file holds what was
  read, on failure the bytes written until then.
\<close>

definition io_Copy :: "sys \<Rightarrow> string \<Rightarrow> string \<Rightarrow> world \<Rightarrow> nat result" where
  "io_Copy e out inp w =
     (let c = contents w inp
      in if fails e (calls w)
         then (Inl (OsError ErrOther),
               called (w\<lparr>files := (files w)(out \<mapsto> take (short_write e (calls w)) c)\<rparr>))
         else (Inr (length c), called (w\<lparr>files := (files w)(out \<mapsto> c)\<rparr>)))"

definition file_Sync :: "sys \<Rightarrow> string \<Rightarrow> world \<Rightarrow> unit result" where
  "file_Sync e out w =
     (if fails e (calls w) then (Inl (OsError ErrOther), called w)
      else (Inr (), called w))"

definition os_Remove :: "sys \<Rightarrow> string \<Rightarrow> world \<Rightarrow> unit result" where
  "os_Remove e name w =
     (if files w (resolve e name) = None then (Inl (OsError ErrNotExist), called w)
      else if fails e (calls w) then (Inl (OsError ErrOther), called w)
      else (Inr (), called (w\<lparr>files := (files w)(resolve e name := None)\<rparr>)))"

text \<open>
  \<open>os.Rename\<close>: when both paths name the same file nothing changes and the call succeeds,
  as \<open>rename(2)\<close> does; otherwise the file is then named by the new path and no longer by
  the old one, and what the new path named before is replaced.
\<close>

definition os_Rename :: "sys \<Rightarrow> string \<Rightarrow> string \<Rightarrow> world \<Rightarrow> unit result" where
  "os_Rename e src dst w =
     (case files w (resolve e src) of
        None \<Rightarrow> (Inl (OsError ErrNotExist), called w)
      | Some c \<Rightarrow>
          if fails e (calls w) then (Inl (OsError ErrOther), called w)
          else if resolve e src = resolve e dst then (Inr (), called w)
          else (Inr (), called (w\<lparr>files := ((files w)(resolve e src := None))
                                              (resolve e dst \<mapsto> c)\<rparr>)))"

text \<open>Reading a file into the multipart body in memory (\<open>io.Copy(part, f)\<close>).\<close>

definition read_into_part :: "sys \<Rightarrow> string \<Rightarrow> world \<Rightarrow> string result" where
  "read_into_part e f w =
     (if fails e (calls w) then (Inl (OsError ErrOther), called w)
      else (Inr (contents w f), called w))"

text \<open>
  \<open>client.Do\<close>: the request is handed to the client, which returns a response or an
  error.
\<close>

definition client_Do :: "sys \<Rightarrow> http_request \<Rightarrow> world \<Rightarrow> http_response result" where
  "client_Do e req w =
     (let w' = called (w\<lparr>sent := sent w @ [req]\<rparr>)
      in case server e req of
           None \<Rightarrow> (Inl TransportError, w')
         | Some resp \<Rightarrow> (Inr resp, w'))"

section \<open>Package config: the configuration\<close>

type_synonym AfterUpload = string

definition AfterUploadDelete :: AfterUpload where
  "AfterUploadDelete = ''delete''"

definition AfterUploadBackup :: AfterUpload where
  "AfterUploadBackup = ''backup''"

record Config =
  WatchDir :: string
  PaperlessURL :: string
  Token :: string
  AllowedExts :: "string set"
  RenameToUUID :: bool
  AfterUpload :: AfterUpload
  BackupDir :: string
  LogFile :: string
  PollInterval :: int

text \<open>\<open>Validate\<close> returns which of its five errors it found, or \<open>None\<close> for \<open>nil\<close>.\<close>

datatype config_error =
  DirRequired | UrlRequired | TokenRequired | BadAfterUpload | BackupDirRequired

definition Validate :: "Config \<Rightarrow> config_error option" where
  "Validate c =
     (if WatchDir c = [] then Some DirRequired
      else if PaperlessURL c = [] then Some UrlRequired
      else if Token c = [] then Some TokenRequired
      else if \<not> (AfterUpload c = AfterUploadDelete \<or> AfterUpload c = AfterUploadBackup)
        then Some BadAfterUpload
      else if AfterUpload c = AfterUploadBackup \<and> BackupDir c = []
        then Some BackupDirRequired
      else None)"

section \<open>Package uploader\<close>

text \<open>The log records of the source (\<open>slog\<close>) change nothing below and are left out.\<close>

definition copyFile :: "sys \<Rightarrow> string \<Rightarrow> string \<Rightarrow> world \<Rightarrow> unit result" where
  "copyFile e src dst w =
     (case os_Open e src w of
        (Inl err, w1) \<Rightarrow> (Inl err, w1)
      | (Inr inp, w1) \<Rightarrow>
          (case os_Create e dst w1 of
             (Inl err, w2) \<Rightarrow> (Inl err, w2)
           | (Inr out, w2) \<Rightarrow>
               (case io_Copy e out inp w2 of
                  (Inl err, w3) \<Rightarrow> (Inl err, w3)
                | (Inr n, w3) \<Rightarrow> file_Sync e out w3)))"

definition moveFile :: "sys \<Rightarrow> string \<Rightarrow> string \<Rightarrow> world \<Rightarrow> unit result" where
  "moveFile e src dst w =
     (case os_Rename e src dst w of
        (Inr u, w1) \<Rightarrow> (Inr (), w1)
      | (Inl err, w1) \<Rightarrow>
          (case copyFile e src dst w1 of
             (Inl err2, w2) \<Rightarrow> (Inl err2, w2)
           | (Inr u, w2) \<Rightarrow> os_Remove e src w2))"

definition postUploadAction :: "sys \<Rightarrow> Config \<Rightarrow> string \<Rightarrow> world \<Rightarrow> unit result" where
  "postUploadAction e cfg filePath w =
     (if AfterUpload cfg = AfterUploadDelete then
        (case os_Remove e filePath w of
           (Inl err, w1) \<Rightarrow> (Inl (Wrapped ''delete after upload'' err), w1)
         | (Inr u, w1) \<Rightarrow> (Inr (), w1))
      else if AfterUpload cfg = AfterUploadBackup then
        (let dst = Join (BackupDir cfg) (Base filePath)
         in case moveFile e filePath dst w of
              (Inl err, w1) \<Rightarrow> (Inl (Wrapped ''backup after upload'' err), w1)
            | (Inr u, w1) \<Rightarrow> (Inr (), w1))
      else (Inr (), w))"

definition TrimRight_slash :: "string \<Rightarrow> string" where
  "TrimRight_slash s = rev (dropWhile (\<lambda>c. c = CHR ''/'') (rev s))"

text \<open>
  The value of the document part's \<open>Content-Disposition\<close> header, as \<open>fmt.Sprintf\<close>
  writes it: the file name stands between double quotes (byte \<open>0x22\<close>) as it is.
\<close>

definition document_disposition :: "string \<Rightarrow> string" where
  "document_disposition filename =
     ''form-data; name='' @ [CHR 0x22] @ ''document'' @ [CHR 0x22] @
     ''; filename='' @ [CHR 0x22] @ filename @ [CHR 0x22]"

text \<open>
  \<open>postDocument\<close>: the multipart body is built in memory, which cannot fail; it is kept
  as its parts (the document part's two headers and content, the title field) rather
  than as bytes around a random boundary.
\<close>

definition postDocument :: "sys \<Rightarrow> Config \<Rightarrow> string \<Rightarrow> string \<Rightarrow> world \<Rightarrow> unit result" where
  "postDocument e cfg filePath title w =
     (case os_Open e filePath w of
        (Inl err, w1) \<Rightarrow> (Inl (Wrapped ''open file'' err), w1)
      | (Inr f, w1) \<Rightarrow>
          (let m = TypeByExtension e (ToLower (Ext filePath));
               mimeType = (if m = [] then ''application/octet-stream'' else m);
               disposition = document_disposition (Base filePath)
           in case read_into_part e f w1 of
                (Inl err, w2) \<Rightarrow> (Inl (Wrapped ''write file content to form'' err), w2)
              | (Inr bytes, w2) \<Rightarrow>
                  (let endpoint =
                         TrimRight_slash (PaperlessURL cfg) @ ''/api/documents/post_document/''
                   in if \<not> url_parses e endpoint
                      then (Inl (Wrapped ''create request'' RequestError), w2)
                      else
                        (let req = \<lparr>req_url = endpoint,
                                    req_authorization = ''Token '' @ Token cfg,
                                    req_user_agent = ''curl/7.81.0'',
                                    doc_disposition = disposition,
                                    doc_content_type = mimeType,
                                    doc_content = bytes,
                                    title_value = title\<rparr>
                         in case client_Do e req w2 of
                              (Inl err, w3) \<Rightarrow> (Inl (Wrapped ''http post'' err), w3)
                            | (Inr resp, w3) \<Rightarrow>
                                if StatusCode resp < 200 \<or> StatusCode resp \<ge> 300
                                then (Inl (StatusError (StatusCode resp) (RespBody resp)), w3)
                                else (Inr (), w3)))))"

text \<open>
  \<open>Upload\<close>. \<open>upload_from\<close> is the part of the function after the optional copy (from the
  computation of the stem to the return); the deferred removal of the copy runs when
  that part returns, whatever it returns, and its own error is only logged.
\<close>

definition upload_from :: "sys \<Rightarrow> Config \<Rightarrow> string \<Rightarrow> string \<Rightarrow> string \<Rightarrow> world \<Rightarrow> unit result" where
  "upload_from e cfg filePath uploadPath originalName w =
     (let stem = TrimSuffix originalName (Ext originalName)
      in case postDocument e cfg uploadPath stem w of
           (Inl err, w1) \<Rightarrow> (Inl (Wrapped ''upload failed'' err), w1)
         | (Inr u, w1) \<Rightarrow> postUploadAction e cfg filePath w1)"

definition Upload :: "sys \<Rightarrow> Config \<Rightarrow> string \<Rightarrow> world \<Rightarrow> unit result" where
  "Upload e cfg filePath w =
     (let originalName = Base filePath
      in if RenameToUUID cfg then
           (let ext = Ext filePath;
                uuidName = new_uuid e (calls w) @ ext;
                uploadPath = Join (TempDir e) uuidName
            in case copyFile e filePath uploadPath w of
                 (Inl err, w1) \<Rightarrow> (Inl (Wrapped ''uuid copy'' err), w1)
               | (Inr u, w1) \<Rightarrow>
                   (case upload_from e cfg filePath uploadPath originalName w1 of
                      (r, w2) \<Rightarrow> (r, snd (os_Remove e uploadPath w2))))
         else upload_from e cfg filePath filePath originalName w)"

text \<open>
  The value of \<open>Upload\<close>'s variable \<open>uploadPath\<close>, and the test whether a result is the
  error \<open>Upload\<close> returns when \<open>postDocument\<close> fails.
\<close>

definition uploadPath_of :: "sys \<Rightarrow> Config \<Rightarrow> string \<Rightarrow> world \<Rightarrow> string" where
  "uploadPath_of e cfg filePath w =
     (if RenameToUUID cfg then Join (TempDir e) (new_uuid e (calls w) @ Ext filePath)
      else filePath)"

fun upload_failed :: "error + unit \<Rightarrow> bool" where
  "upload_failed (Inl (Wrapped m err)) = (m = ''upload failed'')"
| "upload_failed r = False"

fun uuid_copy_failed :: "error + unit \<Rightarrow> bool" where
  "uuid_copy_failed (Inl (Wrapped m err)) = (m = ''uuid copy'')"
| "uuid_copy_failed r = False"

subsection \<open>A concrete run\<close>

text \<open>
  One source file \<open>/scans/a.pdf\<close> in an otherwise empty file system, a system whose
  calls fail as \<open>f\<close> says, that names the temporary copy \<open>0f1e\<close> in \<open>/tmp\<close>, and a
  server that answers every request with status \<open>code\<close>. There are no links, and the
  working directory is the root: a path names the file at its clean absolute form.
\<close>

definition demo_resolve :: "string \<Rightarrow> string" where
  "demo_resolve name = (if HasPrefix name ''/'' then Clean name else Join ''/'' name)"

definition demo_sys :: "(nat \<Rightarrow> bool) \<Rightarrow> int \<Rightarrow> sys" where
  "demo_sys f code =
     \<lparr>resolve = demo_resolve, fails = f, short_write = (\<lambda>n. 2), TempDir = ''/tmp'', new_uuid = (\<lambda>n. ''0f1e''),
      TypeByExtension = (\<lambda>x. []), url_parses = (\<lambda>u. True),
      server = (\<lambda>req. Some \<lparr>StatusCode = code, RespBody = []\<rparr>)\<rparr>"

definition demo_cfg :: "bool \<Rightarrow> AfterUpload \<Rightarrow> string \<Rightarrow> Config" where
  "demo_cfg rename after backup =
     \<lparr>WatchDir = ''/scans'', PaperlessURL = ''http://paperless/'', Token = ''t'',
      AllowedExts = {}, RenameToUUID = rename, AfterUpload = after, BackupDir = backup,
      LogFile = [], PollInterval = 0\<rparr>"

definition demo_world :: world where
  "demo_world = \<lparr>files = [''/scans/a.pdf'' \<mapsto> ''%PDF''], calls = 0, sent = []\<rparr>"


section \<open>Package watcher: the debounce loop\<close>

text \<open>
  \<open>Watch\<close> runs one goroutine, a loop around a \<open>select\<close> over the stop channel, the
  notifier's event and error channels and the channel \<open>timerCh\<close>. Every timer that
  \<open>time.AfterFunc\<close> arms runs, once its delay is over, a goroutine of its own that sends
  one message on \<open>timerCh\<close>. The state below is what these share: the two maps of the loop,
  the timers armed in the runtime (handle, deadline, message), the timer goroutines
  that have started and not yet sent, the two channels, and the clock in milliseconds.
  The records the loop logs when a timer message is accepted are kept in \<open>logged\<close>.
\<close>

unbundle bit_operations_syntax

type_synonym Op = "32 word"

definition Create :: Op where "Create = 1"
definition Write :: Op where "Write = 2"
definition Remove :: Op where "Remove = 4"
definition Rename :: Op where "Rename = 8"
definition Chmod :: Op where "Chmod = 16"

definition debounceDelay :: nat where
  "debounceDelay = 750"

record debounceMsg =
  msg_path :: string
  msg_gen :: "64 word"

datatype log_record =
    SkippedExtension string
  | NotAccessible string
  | QueuingUpload string

fun record_file :: "log_record \<Rightarrow> string" where
  "record_file (SkippedExtension p) = p"
| "record_file (NotAccessible p) = p"
| "record_file (QueuingUpload p) = p"


record watch_env =
  Getwd :: "string option"
  Stat_ok :: "nat \<Rightarrow> string \<Rightarrow> bool"

record watcher =
  clock :: nat
  timers :: "string \<rightharpoonup> nat"
  gens :: "string \<rightharpoonup> 64 word"
  next_timer :: nat
  armed :: "(nat \<times> nat \<times> debounceMsg) list"
  sending :: "debounceMsg list"
  timerCh :: "debounceMsg list"
  out :: "string list"
  logged :: "log_record list"
  halted :: bool

definition start :: "nat \<Rightarrow> watcher" where
  "start t = \<lparr>clock = t, timers = Map.empty, gens = Map.empty, next_timer = 0, armed = [],
              sending = [], timerCh = [], out = [], logged = [], halted = False\<rparr>"

text \<open>\<open>filepath.Abs\<close>: an absolute path is cleaned, another one is joined to the working
  directory, and fails when that is not known.\<close>

definition Abs :: "watch_env \<Rightarrow> string \<Rightarrow> string option" where
  "Abs env name =
     (if HasPrefix name ''/'' then Some (Clean name)
      else case Getwd env of None \<Rightarrow> None | Some wd \<Rightarrow> Some (Join wd name))"

text \<open>Reading a Go map of integers at a key it does not hold gives zero.\<close>

definition gen_of :: "watcher \<Rightarrow> string \<Rightarrow> 64 word" where
  "gen_of s p = (case gens s p of None \<Rightarrow> 0 | Some g \<Rightarrow> g)"

text \<open>\<open>t.Stop()\<close>: the timer leaves the runtime if it is still armed there.\<close>

definition timer_Stop :: "nat \<Rightarrow> watcher \<Rightarrow> watcher" where
  "timer_Stop h s = s\<lparr>armed := filter (\<lambda>t. fst t \<noteq> h) (armed s)\<rparr>"

text \<open>The case \<open>event := <-fw.Events\<close> of the loop.\<close>

definition on_event :: "watch_env \<Rightarrow> Op \<Rightarrow> string \<Rightarrow> watcher \<Rightarrow> watcher" where
  "on_event env op name s =
     (if op AND (Create OR Write) = 0 then s
      else case Abs env name of
        None \<Rightarrow> s
      | Some p \<Rightarrow>
          (let s1 = (case timers s p of None \<Rightarrow> s | Some h \<Rightarrow> timer_Stop h s);
               g = gen_of s1 p + 1;
               h = next_timer s1
           in s1\<lparr>gens := (gens s1)(p \<mapsto> g),
                 timers := (timers s1)(p \<mapsto> h),
                 armed := armed s1 @ [(h, clock s1 + debounceDelay,
                                       \<lparr>msg_path = p, msg_gen = g\<rparr>)],
                 next_timer := Suc h\<rparr>))"

text \<open>
  \<open>waitForFile\<close>: \<open>os.Stat\<close> every 100 ms until it succeeds or the deadline is reached, then
  once more. It returns whether the file was found, and the time then (a \<open>Sleep\<close> is taken
  to last its 100 ms and nothing else to take time).
\<close>

function wait_loop :: "watch_env \<Rightarrow> string \<Rightarrow> nat \<Rightarrow> nat \<Rightarrow> bool \<times> nat" where
  "wait_loop env p deadline t =
     (if t < deadline
      then (if Stat_ok env t p then (True, t) else wait_loop env p deadline (t + 100))
      else (Stat_ok env t p, t))"
  by pat_completeness auto
termination
  by (relation "measure (\<lambda>(env, p, deadline, t). deadline - t)") auto

definition waitForFile :: "watch_env \<Rightarrow> string \<Rightarrow> nat \<Rightarrow> nat \<Rightarrow> bool \<times> nat" where
  "waitForFile env p timeout t = wait_loop env p (t + timeout) t"

text \<open>The case \<open>msg := <-timerCh\<close> of the loop, for the message received.\<close>

definition on_timer_msg :: "watch_env \<Rightarrow> string set \<Rightarrow> debounceMsg \<Rightarrow> watcher \<Rightarrow> watcher" where
  "on_timer_msg env allowedExts msg s =
     (if gen_of s (msg_path msg) \<noteq> msg_gen msg then s
      else
        (let s1 = s\<lparr>timers := (timers s)(msg_path msg := None),
                    gens := (gens s)(msg_path msg := None)\<rparr>
         in if \<not> allowed (msg_path msg) allowedExts
            then s1\<lparr>logged := logged s1 @ [SkippedExtension (msg_path msg)]\<rparr>
            else
              (case waitForFile env (msg_path msg) 2000 (clock s1) of
                 (False, t) \<Rightarrow>
                   s1\<lparr>clock := t, logged := logged s1 @ [NotAccessible (msg_path msg)]\<rparr>
               | (True, t) \<Rightarrow>
                   s1\<lparr>clock := t, logged := logged s1 @ [QueuingUpload (msg_path msg)],
                      out := out s1 @ [msg_path msg]\<rparr>)))"

text \<open>
  What can happen next. The first six are the cases the loop's \<open>select\<close> can take (a
  closed channel included), and do nothing once the loop has returned. The others are
  not the loop's: time passes; the timer with a handle expires and its goroutine starts;
  a started timer goroutine gets its message into \<open>timerCh\<close> (64 places), or gives up
  because \<open>stop\<close> is closed. A step that cannot happen in a state leaves it as it is.
  A send on \<open>out\<close> that has to wait is time passing before the next step; when \<open>stop\<close>
  is closed during that wait the loop returns without sending, which is the step
  \<open>StopClosed\<close> taken in place of \<open>TimerMsg\<close>: in both cases nothing more reaches \<open>out\<close>.
\<close>

datatype action =
    StopClosed
  | Event Op string
  | EventsClosed
  | TimerMsg
  | WatchError
  | ErrorsClosed
  | Elapse nat
  | Expire nat
  | Send nat
  | GiveUp nat

fun expire :: "nat \<Rightarrow> watcher \<Rightarrow> watcher" where
  "expire h s =
     (case filter (\<lambda>t. fst t = h) (armed s) of
        [] \<Rightarrow> s
      | (h', deadline, msg) # ts \<Rightarrow>
          if deadline \<le> clock s
          then s\<lparr>armed := filter (\<lambda>t. fst t \<noteq> h) (armed s), sending := sending s @ [msg]\<rparr>
          else s)"

fun drop_nth :: "nat \<Rightarrow> 'a list \<Rightarrow> 'a list" where
  "drop_nth i xs = take i xs @ drop (Suc i) xs"

fun step :: "watch_env \<Rightarrow> string set \<Rightarrow> action \<Rightarrow> watcher \<Rightarrow> watcher" where
  "step env exts StopClosed s = s\<lparr>halted := True\<rparr>"
| "step env exts EventsClosed s = s\<lparr>halted := True\<rparr>"
| "step env exts ErrorsClosed s = s\<lparr>halted := True\<rparr>"
| "step env exts WatchError s = s"
| "step env exts (Event op name) s = (if halted s then s else on_event env op name s)"
| "step env exts TimerMsg s =
     (if halted s then s
      else case timerCh s of
        [] \<Rightarrow> s
      | msg # rest \<Rightarrow> on_timer_msg env exts msg (s\<lparr>timerCh := rest\<rparr>))"
| "step env exts (Elapse d) s = s\<lparr>clock := clock s + d\<rparr>"
| "step env exts (Expire h) s = expire h s"
| "step env exts (Send i) s =
     (if i < length (sending s) \<and> length (timerCh s) < 64
      then s\<lparr>timerCh := timerCh s @ [sending s ! i], sending := drop_nth i (sending s)\<rparr>
      else s)"
| "step env exts (GiveUp i) s =
     (if halted s \<and> i < length (sending s) then s\<lparr>sending := drop_nth i (sending s)\<rparr> else s)"

definition run :: "watch_env \<Rightarrow> string set \<Rightarrow> action list \<Rightarrow> watcher \<Rightarrow> watcher" where
  "run env exts as s = fold (step env exts) as s"


text \<open>
  Two systems to run the loop in: in \<open>demo_env\<close> every file is found at once, in
  \<open>demo_env_without gone\<close> the file \<open>gone\<close> is never found and every other file is.
\<close>

definition demo_env :: watch_env where
  "demo_env = \<lparr>Getwd = Some ''/'', Stat_ok = (\<lambda>t p. True)\<rparr>"


declare wait_loop.simps [simp del]

subsection \<open>The events of one path\<close>








text \<open>What a state holds for the path \<open>p\<close>: its timers, messages, log records and sends.\<close>

definition armed_for :: "string \<Rightarrow> watcher \<Rightarrow> (nat \<times> nat \<times> debounceMsg) list" where
  "armed_for p s = filter (\<lambda>t. msg_path (snd (snd t)) = p) (armed s)"

definition sending_for :: "string \<Rightarrow> watcher \<Rightarrow> debounceMsg list" where
  "sending_for p s = filter (\<lambda>m. msg_path m = p) (sending s)"

definition queued_for :: "string \<Rightarrow> watcher \<Rightarrow> debounceMsg list" where
  "queued_for p s = filter (\<lambda>m. msg_path m = p) (timerCh s)"

definition records_for :: "string \<Rightarrow> watcher \<Rightarrow> log_record list" where
  "records_for p s = filter (\<lambda>r. record_file r = p) (logged s)"

definition out_for :: "string \<Rightarrow> watcher \<Rightarrow> string list" where
  "out_for p s = filter (\<lambda>x. x = p) (out s)"


subsection \<open>The states a burst goes through\<close>


definition same_for :: "string \<Rightarrow> watcher \<Rightarrow> watcher \<Rightarrow> bool" where
  "same_for p s s' =
     (armed_for p s' = armed_for p s \<and> sending_for p s' = sending_for p s
      \<and> queued_for p s' = queued_for p s \<and> records_for p s' = records_for p s
      \<and> out_for p s' = out_for p s \<and> timers s' p = timers s p \<and> gens s' p = gens s p
      \<and> halted s' = halted s
      \<and> (\<forall>q h. timers s' q = Some h \<longrightarrow> timers s q = Some h \<or> next_timer s \<le> h))"







section \<open>Properties of the string functions and the extension set\<close>

lemmas string_defs = Split_def TrimSpace_def is_space_def ToLower_def lower_byte_def
  TrimPrefix_def HasPrefix_def Ext_def IsPathSeparator_def TrimSuffix_def HasSuffix_def Base_def

lemma fold_insert_nonempty:
  "fold (\<lambda>e result. if TrimPrefix (ToLower (TrimSpace e)) ''.'' \<noteq> []
                     then insert (TrimPrefix (ToLower (TrimSpace e)) ''.'') result
                     else result) xs A
   = A \<union> ((\<lambda>e. TrimPrefix (ToLower (TrimSpace e)) ''.'') ` set xs - {[]})"
  by (induction xs arbitrary: A) auto

lemma Split_empty: "Split [] c = [[]]"
  by (simp add: Split_def)

lemma TrimSuffix_self: "TrimSuffix s s = []"
  by (simp add: TrimSuffix_def HasSuffix_def)

text \<open>
  Claim C8. \<open>ParseExtensions\<close> returns the set of the comma-separated components of its
  argument, each trimmed of white space, then lower-cased, then stripped of one leading
  dot, without the components that are empty after that. The empty string gives the
  empty set. The result is a finite set: a component is a key of the Go map or not,
  whatever the number of times the argument lists it (\<open>pdf\<close> is listed twice in the
  example, in two spellings, and \<open>..x\<close> loses one dot only).
\<close>

theorem ParseExtensions_normalised_set:
  "ParseExtensions raw =
     (\<lambda>e. TrimPrefix (ToLower (TrimSpace e)) ''.'') ` set (Split raw CHR '','') - {[]}
   \<and> ParseExtensions [] = {}
   \<and> finite (ParseExtensions raw)
   \<and> ParseExtensions '' PDF, .Png ,,. ,..x,pdf'' = {''pdf'', ''png'', ''.x''}"
proof -
  have a: "ParseExtensions raw =
     (\<lambda>e. TrimPrefix (ToLower (TrimSpace e)) ''.'') ` set (Split raw CHR '','') - {[]}"
  proof (cases "raw = []")
    case True
    then show ?thesis
      by (simp add: ParseExtensions_def Split_empty string_defs)
  next
    case False
    then show ?thesis
      by (simp add: ParseExtensions_def Let_def fold_insert_nonempty)
  qed
  have b: "ParseExtensions [] = {}"
    by (simp add: ParseExtensions_def)
  have c: "finite (ParseExtensions raw)"
    unfolding a by simp
  have d: "ParseExtensions '' PDF, .Png ,,. ,..x,pdf'' = {''pdf'', ''png'', ''.x''}"
    by code_simp
  from a b c d show ?thesis by blast
qed

text \<open>
  Claim C3, as stated, fails in its third example: \<open>allowed\<close> lower-cases the extension of
  the path, never the members of the set, so a set holding \<open>PDF\<close> matches no path.
\<close>

theorem allowed_upper_case_set_counterexample:
  "\<not> allowed ''a.pdf'' {''PDF''}"
  by code_simp

text \<open>
  Claim C3, amended. \<open>allowed\<close> is true of every path for the empty set; it is false of
  \<open>a.PNG\<close> for \<open>{pdf}\<close>; it is true of \<open>a.PDF\<close> for \<open>{pdf}\<close>, and of \<open>a.pdf\<close> for
  the set \<open>ParseExtensions\<close> makes of \<open>PDF\<close>. In general it is true exactly when the set is
  empty or holds the path's extension, lower-cased and without its leading dot: the
  case of the path does not matter, the set is taken as it is (the configuration holds it
  lower-cased).
\<close>

theorem allowed_lower_cases_path_only:
  "allowed path {}
   \<and> \<not> allowed ''a.PNG'' {''pdf''}
   \<and> allowed ''a.PDF'' {''pdf''}
   \<and> allowed ''a.pdf'' (ParseExtensions ''PDF'')
   \<and> allowed path exts = (exts = {} \<or> TrimPrefix (ToLower (Ext path)) ''.'' \<in> exts)"
proof -
  have p: "ParseExtensions ''PDF'' = {''pdf''}"
    by code_simp
  have "allowed ''a.pdf'' (ParseExtensions ''PDF'')"
    unfolding p by code_simp
  moreover have "\<not> allowed ''a.PNG'' {''pdf''}"
    by code_simp
  moreover have "allowed ''a.PDF'' {''pdf''}"
    by code_simp
  moreover have "allowed path {}"
    by (simp add: allowed_def)
  moreover have "allowed path exts = (exts = {} \<or> TrimPrefix (ToLower (Ext path)) ''.'' \<in> exts)"
    by (simp add: allowed_def)
  ultimately show ?thesis by blast
qed

section \<open>Properties of the uploader\<close>

lemmas prim_defs = os_Open_def os_Create_def io_Copy_def file_Sync_def os_Remove_def
  os_Rename_def read_into_part_def client_Do_def called_def contents_def

lemma copyFile_sent: "copyFile e src dst w = (r, w') \<Longrightarrow> sent w' = sent w"
  by (auto simp: copyFile_def prim_defs Let_def split: if_splits)

lemma copyFile_frame:
  "copyFile e src dst w = (r, w') \<Longrightarrow> q \<noteq> resolve e dst \<Longrightarrow> files w' q = files w q"
  by (auto simp: copyFile_def prim_defs Let_def split: if_splits)

lemma copyFile_ok:
  "copyFile e src dst w = (Inr u, w') \<Longrightarrow> resolve e src \<noteq> resolve e dst \<Longrightarrow>
     files w' (resolve e dst) = files w (resolve e src) \<and> files w (resolve e src) \<noteq> None"
  by (auto simp: copyFile_def prim_defs Let_def split: if_splits)

lemma copyFile_keeps:
  "copyFile e src dst w = (r, w') \<Longrightarrow> files w q \<noteq> None \<Longrightarrow> files w' q \<noteq> None"
  by (auto simp: copyFile_def prim_defs Let_def split: if_splits)

lemma os_Remove_sent: "os_Remove e n w = (r, w') \<Longrightarrow> sent w' = sent w"
  by (auto simp: prim_defs split: if_splits)

lemma os_Remove_frame:
  "os_Remove e n w = (r, w') \<Longrightarrow> q \<noteq> resolve e n \<Longrightarrow> files w' q = files w q"
  by (auto simp: prim_defs split: if_splits)

lemma os_Remove_ok: "os_Remove e n w = (Inr u, w') \<Longrightarrow> files w' (resolve e n) = None"
  by (auto simp: prim_defs split: if_splits)

lemma os_Remove_fail: "os_Remove e n w = (Inl err, w') \<Longrightarrow> files w' = files w"
  by (auto simp: prim_defs split: if_splits)

lemma os_Remove_no_fault:
  "os_Remove e n w = (r, w') \<Longrightarrow> \<not> fails e (calls w) \<Longrightarrow> files w' (resolve e n) = None"
  by (auto simp: prim_defs split: if_splits)

lemma os_Rename_sent: "os_Rename e src dst w = (r, w') \<Longrightarrow> sent w' = sent w"
  by (auto simp: prim_defs split: if_splits option.splits)

lemma os_Rename_fail: "os_Rename e src dst w = (Inl err, w') \<Longrightarrow> files w' = files w"
  by (auto simp: prim_defs split: if_splits option.splits)

lemma os_Rename_ok:
  "os_Rename e src dst w = (Inr u, w') \<Longrightarrow>
     files w (resolve e src) \<noteq> None
     \<and> (resolve e src \<noteq> resolve e dst \<longrightarrow>
           files w' = ((files w)(resolve e src := None))(resolve e dst := files w (resolve e src)))
     \<and> (resolve e src = resolve e dst \<longrightarrow> files w' = files w)"
  by (auto simp: prim_defs split: if_splits option.splits)

lemma os_Rename_frame:
  "os_Rename e src dst w = (r, w') \<Longrightarrow> q \<noteq> resolve e src \<Longrightarrow> q \<noteq> resolve e dst \<Longrightarrow>
     files w' q = files w q"
  by (auto simp: prim_defs split: if_splits option.splits)


lemma moveFile_sent: "moveFile e src dst w = (r, w') \<Longrightarrow> sent w' = sent w"
proof -
  assume m: "moveFile e src dst w = (r, w')"
  obtain r1 w1 where rn: "os_Rename e src dst w = (r1, w1)" by force
  obtain r2 w2 where cp: "copyFile e src dst w1 = (r2, w2)" by force
  obtain r3 w3 where rm: "os_Remove e src w2 = (r3, w3)" by force
  from m rn cp rm os_Rename_sent [OF rn] copyFile_sent [OF cp] os_Remove_sent [OF rm]
  show ?thesis
    by (auto simp: moveFile_def split: sum.splits)
qed

lemma moveFile_frame:
  assumes m: "moveFile e src dst w = (r, w')" and q: "q \<noteq> resolve e src" "q \<noteq> resolve e dst"
  shows "files w' q = files w q"
proof -
  obtain r1 w1 where rn: "os_Rename e src dst w = (r1, w1)" by force
  obtain r2 w2 where cp: "copyFile e src dst w1 = (r2, w2)" by force
  obtain r3 w3 where rm: "os_Remove e src w2 = (r3, w3)" by force
  show ?thesis
  proof (cases r1)
    case (Inr u)
    with m rn have "w' = w1" by (simp add: moveFile_def)
    with os_Rename_frame [OF rn q] show ?thesis by simp
  next
    case (Inl err)
    with rn os_Rename_fail have f1: "files w1 = files w" by blast
    from copyFile_frame [OF cp] q have f2: "files w2 q = files w1 q" by simp
    from os_Remove_frame [OF rm] q have f3: "files w3 q = files w2 q" by simp
    from m rn cp rm Inl have "w' = w2 \<or> w' = w3"
      by (auto simp: moveFile_def split: sum.splits)
    with f1 f2 f3 show ?thesis by auto
  qed
qed

lemma moveFile_ok:
  assumes m: "moveFile e src dst w = (Inr u, w')" and ne: "resolve e src \<noteq> resolve e dst"
  shows "files w' (resolve e dst) = files w (resolve e src) \<and> files w (resolve e src) \<noteq> None
         \<and> files w' (resolve e src) = None"
proof -
  obtain r1 w1 where rn: "os_Rename e src dst w = (r1, w1)" by force
  show ?thesis
  proof (cases r1)
    case (Inr v)
    with m rn have "w' = w1" by (simp add: moveFile_def)
    with os_Rename_ok [of e src dst w v w1] rn Inr ne show ?thesis by auto
  next
    case (Inl err)
    with rn os_Rename_fail have f1: "files w1 = files w" by blast
    obtain r2 w2 where cp: "copyFile e src dst w1 = (r2, w2)" by force
    from m rn cp Inl obtain v where r2: "r2 = Inr v" and rm: "os_Remove e src w2 = (Inr u, w')"
      by (auto simp: moveFile_def split: sum.splits)
    from copyFile_ok [of e src dst w1 v w2] cp r2 ne f1
    have c: "files w2 (resolve e dst) = files w (resolve e src)" "files w (resolve e src) \<noteq> None"
      by auto
    from os_Remove_ok [OF rm] os_Remove_frame [OF rm, of "resolve e dst"] ne c show ?thesis
      by auto
  qed
qed

lemma moveFile_fallback:
  assumes rn: "os_Rename e src dst w = (Inl err, w1)"
  shows "moveFile e src dst w =
           (case copyFile e src dst w1 of
              (Inl err2, w2) \<Rightarrow> (Inl err2, w2)
            | (Inr v, w2) \<Rightarrow> os_Remove e src w2)"
  using rn by (simp add: moveFile_def)

lemma postUploadAction_sent:
  "postUploadAction e cfg p w = (r, w') \<Longrightarrow> sent w' = sent w"
proof -
  assume a: "postUploadAction e cfg p w = (r, w')"
  obtain r1 w1 where rm: "os_Remove e p w = (r1, w1)" by force
  obtain r2 w2 where mv: "moveFile e p (Join (BackupDir cfg) (Base p)) w = (r2, w2)" by force
  from a rm mv os_Remove_sent [OF rm] moveFile_sent [OF mv] show ?thesis
    by (auto simp: postUploadAction_def Let_def split: if_splits sum.splits)
qed

lemma postUploadAction_not_upload_failed:
  "postUploadAction e cfg p w = (r, w') \<Longrightarrow> r \<noteq> Inl (Wrapped ''upload failed'' err)"
  by (auto simp: postUploadAction_def Let_def split: if_splits sum.splits prod.splits)

lemma postUploadAction_backup_ok:
  assumes a: "postUploadAction e cfg p w = (Inr u, w')"
    and b: "AfterUpload cfg = AfterUploadBackup"
    and ne: "resolve e (Join (BackupDir cfg) (Base p)) \<noteq> resolve e p"
  shows "files w' (resolve e (Join (BackupDir cfg) (Base p))) = files w (resolve e p)
         \<and> files w (resolve e p) \<noteq> None
         \<and> files w' (resolve e p) = None"
proof -
  obtain r2 w2 where mv: "moveFile e p (Join (BackupDir cfg) (Base p)) w = (r2, w2)" by force
  from a b mv have "r2 = Inr ()" "w2 = w'"
    by (auto simp: postUploadAction_def Let_def AfterUploadBackup_def AfterUploadDelete_def
             split: sum.splits)
  with mv moveFile_ok [of e p "Join (BackupDir cfg) (Base p)" w "()" w'] ne show ?thesis
    by auto
qed

lemma postUploadAction_backup_frame:
  assumes a: "postUploadAction e cfg p w = (r, w')"
    and q: "q \<noteq> resolve e p" "q \<noteq> resolve e (Join (BackupDir cfg) (Base p))"
  shows "files w' q = files w q"
proof -
  obtain r1 w1 where rm: "os_Remove e p w = (r1, w1)" by force
  obtain r2 w2 where mv: "moveFile e p (Join (BackupDir cfg) (Base p)) w = (r2, w2)" by force
  from a rm mv os_Remove_frame [OF rm, of q] moveFile_frame [OF mv, of q] q show ?thesis
    by (auto simp: postUploadAction_def Let_def split: if_splits sum.splits)
qed

lemma postDocument_files: "postDocument e cfg p t w = (r, w') \<Longrightarrow> files w' = files w"
  by (auto simp: postDocument_def prim_defs Let_def split: if_splits option.splits)

lemma postDocument_sent:
  "postDocument e cfg p t w = (r, w') \<Longrightarrow>
     sent w' = sent w \<and> (\<exists>err. r = Inl err) \<or>
     (\<exists>req. sent w' = sent w @ [req] \<and> title_value req = t
            \<and> doc_disposition req = document_disposition (Base p)
            \<and> doc_content req = contents w (resolve e p)
            \<and> (r = Inr ()) = (\<exists>resp. server e req = Some resp
                                \<and> 200 \<le> StatusCode resp \<and> StatusCode resp < 300))"
  by (auto simp: postDocument_def prim_defs Let_def split: if_splits option.splits)


lemma upload_failed_iff: "upload_failed r = (\<exists>err. r = Inl (Wrapped ''upload failed'' err))"
  by (cases r rule: upload_failed.cases) auto

lemma uuid_copy_failed_iff: "uuid_copy_failed r = (\<exists>err. r = Inl (Wrapped ''uuid copy'' err))"
  by (cases r rule: uuid_copy_failed.cases) auto

lemma postUploadAction_kind:
  "postUploadAction e cfg p w = (r, w') \<Longrightarrow> \<not> upload_failed r \<and> \<not> uuid_copy_failed r"
  by (auto simp: postUploadAction_def Let_def split: if_splits sum.splits prod.splits)

lemma upload_from_cases:
  assumes u: "upload_from e cfg filePath up name w = (r, w')"
  shows "(upload_failed r \<and> files w' = files w
            \<and> (sent w' = sent w
                \<or> (\<exists>req. sent w' = sent w @ [req]
                      \<and> title_value req = TrimSuffix name (Ext name)
                      \<and> doc_disposition req = document_disposition (Base up)
                      \<and> \<not> (\<exists>resp. server e req = Some resp
                                \<and> 200 \<le> StatusCode resp \<and> StatusCode resp < 300))))
         \<or> (\<not> upload_failed r \<and> \<not> uuid_copy_failed r
            \<and> (\<exists>w1 req. postUploadAction e cfg filePath w1 = (r, w')
                  \<and> files w1 = files w
                  \<and> sent w' = sent w @ [req]
                  \<and> title_value req = TrimSuffix name (Ext name)
                  \<and> doc_disposition req = document_disposition (Base up)
                  \<and> (\<exists>resp. server e req = Some resp
                         \<and> 200 \<le> StatusCode resp \<and> StatusCode resp < 300)))"
proof -
  obtain r1 w1 where pd: "postDocument e cfg up (TrimSuffix name (Ext name)) w = (r1, w1)"
    by force
  note f = postDocument_files [OF pd]
  note s = postDocument_sent [OF pd]
  show ?thesis
  proof (cases r1)
    case (Inl err)
    with u pd have "r = Inl (Wrapped ''upload failed'' err)" "w' = w1"
      by (auto simp: upload_from_def Let_def)
    with f s Inl show ?thesis by auto
  next
    case (Inr v)
    with u pd have pa: "postUploadAction e cfg filePath w1 = (r, w')"
      by (auto simp: upload_from_def Let_def)
    from postUploadAction_kind [OF pa] postUploadAction_sent [OF pa] f s Inr pa
    show ?thesis by auto
  qed
qed


lemma Upload_cases:
  assumes u: "Upload e cfg filePath w = (r, w')"
  shows "(\<not> RenameToUUID cfg \<and> uploadPath_of e cfg filePath w = filePath
            \<and> upload_from e cfg filePath filePath (Base filePath) w = (r, w'))
         \<or> (RenameToUUID cfg \<and> uuid_copy_failed r
            \<and> (\<exists>err. copyFile e filePath (uploadPath_of e cfg filePath w) w = (Inl err, w')))
         \<or> (RenameToUUID cfg
            \<and> (\<exists>w1 w2 r3.
                  copyFile e filePath (uploadPath_of e cfg filePath w) w = (Inr (), w1)
                  \<and> upload_from e cfg filePath (uploadPath_of e cfg filePath w)
                       (Base filePath) w1 = (r, w2)
                  \<and> os_Remove e (uploadPath_of e cfg filePath w) w2 = (r3, w')))"
proof (cases "RenameToUUID cfg")
  case False
  with u show ?thesis by (simp add: Upload_def uploadPath_of_def Let_def)
next
  case True
  define up where "up = uploadPath_of e cfg filePath w"
  have up: "up = Join (TempDir e) (new_uuid e (calls w) @ Ext filePath)"
    using True by (simp add: up_def uploadPath_of_def)
  obtain r1 w1 where cp: "copyFile e filePath up w = (r1, w1)" by force
  show ?thesis
  proof (cases r1)
    case (Inl err)
    with u True cp up have "r = Inl (Wrapped ''uuid copy'' err)" "w' = w1"
      by (auto simp: Upload_def Let_def)
    with cp Inl True show ?thesis unfolding up_def by auto
  next
    case (Inr v)
    obtain r2 w2 where uf: "upload_from e cfg filePath up (Base filePath) w1 = (r2, w2)"
      by force
    obtain r3 w3 where rm: "os_Remove e up w2 = (r3, w3)" by force
    from u True cp up Inr uf rm have "r = r2" "w' = w3"
      by (auto simp: Upload_def Let_def)
    with cp Inr uf rm True show ?thesis unfolding up_def by auto
  qed
qed

lemma os_Remove_calls: "os_Remove e n w = (r, w') \<Longrightarrow> calls w' = Suc (calls w)"
  by (auto simp: prim_defs split: if_splits)

lemma Upload_request:
  assumes u: "Upload e cfg filePath w = (r, w')" and s: "sent w' = sent w @ [req]"
  shows "title_value req = TrimSuffix (Base filePath) (Ext (Base filePath))
         \<and> doc_disposition req = document_disposition (Base (uploadPath_of e cfg filePath w))
         \<and> upload_failed r = (\<not> (\<exists>resp. server e req = Some resp
                                  \<and> 200 \<le> StatusCode resp \<and> StatusCode resp < 300))"
proof -
  from Upload_cases [OF u] consider
    (plain) "\<not> RenameToUUID cfg" "uploadPath_of e cfg filePath w = filePath"
        "upload_from e cfg filePath filePath (Base filePath) w = (r, w')"
  | (nocopy) err where "copyFile e filePath (uploadPath_of e cfg filePath w) w = (Inl err, w')"
  | (copied) w1 w2 r3 where
        "copyFile e filePath (uploadPath_of e cfg filePath w) w = (Inr (), w1)"
        "upload_from e cfg filePath (uploadPath_of e cfg filePath w) (Base filePath) w1 = (r, w2)"
        "os_Remove e (uploadPath_of e cfg filePath w) w2 = (r3, w')"
    by blast
  then show ?thesis
  proof cases
    case plain
    from upload_from_cases [OF plain(3)] s plain(2) show ?thesis by auto
  next
    case nocopy
    from copyFile_sent [OF nocopy] s show ?thesis by simp
  next
    case copied
    from copyFile_sent [OF copied(1)] os_Remove_sent [OF copied(3)] s
    have "sent w2 = sent w1 @ [req]" by simp
    with upload_from_cases [OF copied(2)] show ?thesis by auto
  qed
qed

lemma Upload_sent:
  assumes u: "Upload e cfg filePath w = (r, w')"
  shows "sent w' = sent w \<or> (\<exists>req. sent w' = sent w @ [req])"
proof -
  from Upload_cases [OF u] consider
    (plain) "upload_from e cfg filePath filePath (Base filePath) w = (r, w')"
  | (nocopy) err where "copyFile e filePath (uploadPath_of e cfg filePath w) w = (Inl err, w')"
  | (copied) w1 w2 r3 where
        "copyFile e filePath (uploadPath_of e cfg filePath w) w = (Inr (), w1)"
        "upload_from e cfg filePath (uploadPath_of e cfg filePath w) (Base filePath) w1 = (r, w2)"
        "os_Remove e (uploadPath_of e cfg filePath w) w2 = (r3, w')"
    by blast
  then show ?thesis
  proof cases
    case plain
    from upload_from_cases [OF plain] show ?thesis by auto
  next
    case nocopy
    from copyFile_sent [OF nocopy] show ?thesis by simp
  next
    case copied
    from copyFile_sent [OF copied(1)] os_Remove_sent [OF copied(3)]
      upload_from_cases [OF copied(2)]
    show ?thesis by auto
  qed
qed

lemma Upload_failed_frame:
  assumes u: "Upload e cfg filePath w = (r, w')" and f: "upload_failed r"
    and q: "RenameToUUID cfg \<longrightarrow> q \<noteq> resolve e (uploadPath_of e cfg filePath w)"
  shows "files w' q = files w q"
proof -
  from Upload_cases [OF u] consider
    (plain) "\<not> RenameToUUID cfg"
        "upload_from e cfg filePath filePath (Base filePath) w = (r, w')"
  | (nocopy) "uuid_copy_failed r"
  | (copied) w1 w2 r3 where "RenameToUUID cfg"
        "copyFile e filePath (uploadPath_of e cfg filePath w) w = (Inr (), w1)"
        "upload_from e cfg filePath (uploadPath_of e cfg filePath w) (Base filePath) w1 = (r, w2)"
        "os_Remove e (uploadPath_of e cfg filePath w) w2 = (r3, w')"
    by blast
  then show ?thesis
  proof cases
    case plain
    from upload_from_cases [OF plain(2)] f show ?thesis by auto
  next
    case nocopy
    with f show ?thesis
      by (auto simp: upload_failed_iff uuid_copy_failed_iff)
  next
    case copied
    from q copied(1) have ne: "q \<noteq> resolve e (uploadPath_of e cfg filePath w)" by simp
    from upload_from_cases [OF copied(3)] f have "files w2 = files w1" by auto
    with copyFile_frame [OF copied(2) ne] os_Remove_frame [OF copied(4) ne]
    show ?thesis by simp
  qed
qed


text \<open>
  Claim C4. Once \<open>Upload\<close> has handed its request to the HTTP client, it returns the
  upload failure exactly when the client returns no response (a transport error) or a
  response whose status is outside \<open>[200, 300)\<close>. When it returns the upload failure, for
  that or an earlier reason, the disposition has not run: every file holds what it held
  before, the temporary copy apart when rename-to-UUID is on; so the source file is at
  its path with its content, neither deleted nor moved (the temporary name being a
  fresh one, which does not name the source file).
\<close>

theorem Upload_fails_unless_2xx_and_keeps_source:
  assumes "Upload e cfg filePath w = (r, w')"
  shows "(\<forall>req. sent w' = sent w @ [req] \<longrightarrow>
            upload_failed r = (\<not> (\<exists>resp. server e req = Some resp
                                   \<and> 200 \<le> StatusCode resp \<and> StatusCode resp < 300)))
         \<and> (upload_failed r \<longrightarrow>
              (\<forall>q. (RenameToUUID cfg \<longrightarrow> q \<noteq> resolve e (uploadPath_of e cfg filePath w))
                     \<longrightarrow> files w' q = files w q))
         \<and> (upload_failed r
              \<and> (RenameToUUID cfg \<longrightarrow>
                    resolve e (uploadPath_of e cfg filePath w) \<noteq> resolve e filePath)
              \<longrightarrow> files w' (resolve e filePath) = files w (resolve e filePath))"
proof (intro conjI allI impI)
  fix req assume "sent w' = sent w @ [req]"
  with Upload_request [OF assms] show
    "upload_failed r = (\<not> (\<exists>resp. server e req = Some resp
                            \<and> 200 \<le> StatusCode resp \<and> StatusCode resp < 300))"
    by blast
next
  fix q
  assume "upload_failed r" "RenameToUUID cfg \<longrightarrow> q \<noteq> resolve e (uploadPath_of e cfg filePath w)"
  with Upload_failed_frame [OF assms] show "files w' q = files w q" by blast
next
  assume "upload_failed r
          \<and> (RenameToUUID cfg \<longrightarrow>
                resolve e (uploadPath_of e cfg filePath w) \<noteq> resolve e filePath)"
  with Upload_failed_frame [OF assms, of "resolve e filePath"]
  show "files w' (resolve e filePath) = files w (resolve e filePath)"
    by auto
qed

theorem Upload_fails_unless_2xx_and_keeps_source_witness:
  "sent (snd (Upload (demo_sys (\<lambda>n. False) 500) (demo_cfg True ''delete'' [])
                ''/scans/a.pdf'' demo_world))
     = sent demo_world @
       [last (sent (snd (Upload (demo_sys (\<lambda>n. False) 500) (demo_cfg True ''delete'' [])
                           ''/scans/a.pdf'' demo_world)))]
   \<and> server (demo_sys (\<lambda>n. False) 500)
        (last (sent (snd (Upload (demo_sys (\<lambda>n. False) 500) (demo_cfg True ''delete'' [])
                            ''/scans/a.pdf'' demo_world))))
      = Some \<lparr>StatusCode = 500, RespBody = []\<rparr>
   \<and> resolve (demo_sys (\<lambda>n. False) 500)
        (uploadPath_of (demo_sys (\<lambda>n. False) 500) (demo_cfg True ''delete'' [])
           ''/scans/a.pdf'' demo_world)
      \<noteq> resolve (demo_sys (\<lambda>n. False) 500) ''/scans/a.pdf''
   \<and> resolve (demo_sys (\<lambda>n. False) 500) ''/scans/a.pdf'' = ''/scans/a.pdf''
   \<and> upload_failed (fst (Upload (demo_sys (\<lambda>n. False) 500) (demo_cfg True ''delete'' [])
                            ''/scans/a.pdf'' demo_world))
   \<and> files (snd (Upload (demo_sys (\<lambda>n. False) 500) (demo_cfg True ''delete'' [])
                    ''/scans/a.pdf'' demo_world)) ''/scans/a.pdf''
      = Some ''%PDF''"
proof -
  define e where "e = demo_sys (\<lambda>n. False) 500"
  define cfg where "cfg = demo_cfg True ''delete'' []"
  define U where "U = Upload e cfg ''/scans/a.pdf'' demo_world"
  have run: "Upload e cfg ''/scans/a.pdf'' demo_world = (fst U, snd U)"
    by (simp add: U_def)
  have s: "sent (snd U) = sent demo_world @ [last (sent (snd U))]"
    unfolding U_def e_def cfg_def by code_simp
  have a: "server e (last (sent (snd U))) = Some \<lparr>StatusCode = 500, RespBody = []\<rparr>"
    unfolding e_def by (simp add: demo_sys_def)
  have p: "resolve e (uploadPath_of e cfg ''/scans/a.pdf'' demo_world)
             \<noteq> resolve e ''/scans/a.pdf''"
    unfolding e_def cfg_def by code_simp
  have k: "resolve e ''/scans/a.pdf'' = ''/scans/a.pdf''"
    unfolding e_def by code_simp
  have c: "RenameToUUID cfg" unfolding cfg_def by (simp add: demo_cfg_def)
  have d: "files demo_world ''/scans/a.pdf'' = Some ''%PDF''"
    by (simp add: demo_world_def)
  note t = Upload_fails_unless_2xx_and_keeps_source [OF run]
  from t s a have f: "upload_failed (fst U)" by auto
  with t p d k have "files (snd U) ''/scans/a.pdf'' = Some ''%PDF''" by auto
  with s a p k f show ?thesis unfolding U_def e_def cfg_def by blast
qed

text \<open>
  Claim C5. The title field of the request \<open>Upload\<close> sends is the stem of the original
  file name: the base name of the source path without its extension, whether
  rename-to-UUID is on or off. The file name in the document part is the base name of
  the file that is uploaded, the source itself or its temporary copy: the part's
  \<open>Content-Disposition\<close> header is \<open>form-data; name="document"; filename="\<close>, that base
  name, and a closing double quote (byte \<open>0x22\<close>), byte for byte.
\<close>

theorem Upload_title_is_stem_of_original_name:
  assumes "Upload e cfg filePath w = (r, w')" and "sent w' = sent w @ [req]"
  shows "title_value req = TrimSuffix (Base filePath) (Ext (Base filePath))
         \<and> doc_disposition req
             = ''form-data; name='' @ [CHR 0x22] @ ''document'' @ [CHR 0x22]
               @ ''; filename='' @ [CHR 0x22]
               @ Base (if RenameToUUID cfg
                       then Join (TempDir e) (new_uuid e (calls w) @ Ext filePath)
                       else filePath)
               @ [CHR 0x22]"
  using Upload_request [OF assms]
  by (simp add: document_disposition_def uploadPath_of_def)

theorem Upload_title_is_stem_of_original_name_witness:
  "sent (snd (Upload (demo_sys (\<lambda>n. False) 200) (demo_cfg True ''delete'' [])
                ''/scans/a.pdf'' demo_world))
     = sent demo_world @
       [last (sent (snd (Upload (demo_sys (\<lambda>n. False) 200) (demo_cfg True ''delete'' [])
                           ''/scans/a.pdf'' demo_world)))]
   \<and> title_value (last (sent (snd (Upload (demo_sys (\<lambda>n. False) 200)
                                      (demo_cfg True ''delete'' [])
                                      ''/scans/a.pdf'' demo_world)))) = ''a''
   \<and> doc_disposition (last (sent (snd (Upload (demo_sys (\<lambda>n. False) 200)
                                          (demo_cfg True ''delete'' [])
                                          ''/scans/a.pdf'' demo_world))))
      = ''form-data; name='' @ [CHR 0x22] @ ''document'' @ [CHR 0x22]
        @ ''; filename='' @ [CHR 0x22] @ ''0f1e.pdf'' @ [CHR 0x22]
   \<and> title_value (last (sent (snd (Upload (demo_sys (\<lambda>n. False) 200)
                                      (demo_cfg False ''delete'' [])
                                      ''/scans/a.pdf'' demo_world)))) = ''a''
   \<and> doc_disposition (last (sent (snd (Upload (demo_sys (\<lambda>n. False) 200)
                                          (demo_cfg False ''delete'' [])
                                          ''/scans/a.pdf'' demo_world))))
      = ''form-data; name='' @ [CHR 0x22] @ ''document'' @ [CHR 0x22]
        @ ''; filename='' @ [CHR 0x22] @ ''a.pdf'' @ [CHR 0x22]"
proof -
  define e where "e = demo_sys (\<lambda>n. False) 200"
  define cfg where "cfg = demo_cfg True ''delete'' []"
  define U where "U = Upload e cfg ''/scans/a.pdf'' demo_world"
  have run: "Upload e cfg ''/scans/a.pdf'' demo_world = (fst U, snd U)"
    by (simp add: U_def)
  have s: "sent (snd U) = sent demo_world @ [last (sent (snd U))]"
    unfolding U_def e_def cfg_def by code_simp
  have st: "TrimSuffix (Base ''/scans/a.pdf'') (Ext (Base ''/scans/a.pdf'')) = ''a''"
    by code_simp
  have c: "RenameToUUID cfg" by (simp add: cfg_def demo_cfg_def)
  have b: "Base (Join (TempDir e) (new_uuid e (calls demo_world) @ Ext ''/scans/a.pdf''))
             = ''0f1e.pdf''"
    unfolding e_def by code_simp
  from Upload_title_is_stem_of_original_name [OF run s] st b c
  have 1: "title_value (last (sent (snd U))) = ''a''"
    "doc_disposition (last (sent (snd U)))
       = ''form-data; name='' @ [CHR 0x22] @ ''document'' @ [CHR 0x22]
         @ ''; filename='' @ [CHR 0x22] @ ''0f1e.pdf'' @ [CHR 0x22]"
    by simp_all
  define cfg2 where "cfg2 = demo_cfg False ''delete'' []"
  define V where "V = Upload e cfg2 ''/scans/a.pdf'' demo_world"
  have run2: "Upload e cfg2 ''/scans/a.pdf'' demo_world = (fst V, snd V)"
    by (simp add: V_def)
  have s2: "sent (snd V) = sent demo_world @ [last (sent (snd V))]"
    unfolding V_def e_def cfg2_def by code_simp
  have c2: "\<not> RenameToUUID cfg2" by (simp add: cfg2_def demo_cfg_def)
  have b2: "Base ''/scans/a.pdf'' = ''a.pdf''" by code_simp
  from Upload_title_is_stem_of_original_name [OF run2 s2] st b2 c2
  have 2: "title_value (last (sent (snd V))) = ''a''"
    "doc_disposition (last (sent (snd V)))
       = ''form-data; name='' @ [CHR 0x22] @ ''document'' @ [CHR 0x22]
         @ ''; filename='' @ [CHR 0x22] @ ''a.pdf'' @ [CHR 0x22]"
    by simp_all
  from 1 2 s show ?thesis unfolding U_def V_def e_def cfg_def cfg2_def by simp
qed

text \<open>
  Claim C9. When the base name of the source path is all extension (it is its own
  \<open>filepath.Ext\<close>, as \<open>.pdf\<close> is), the stem is empty and the title field of the
  request is the empty string.
\<close>

theorem Upload_title_empty_when_name_is_extension:
  assumes "Upload e cfg filePath w = (r, w')" and "sent w' = sent w @ [req]"
    and "Ext (Base filePath) = Base filePath"
  shows "title_value req = []"
  using Upload_request [OF assms(1,2)] assms(3) by (simp add: TrimSuffix_self)

theorem Upload_title_empty_when_name_is_extension_witness:
  "Ext (Base ''/scans/.pdf'') = Base ''/scans/.pdf''
   \<and> Base ''/scans/.pdf'' = ''.pdf''
   \<and> sent (snd (Upload (demo_sys (\<lambda>n. False) 200) (demo_cfg False ''delete'' [])
                  ''/scans/.pdf'' (demo_world\<lparr>files := [''/scans/.pdf'' \<mapsto> ''%PDF'']\<rparr>)))
      = [last (sent (snd (Upload (demo_sys (\<lambda>n. False) 200) (demo_cfg False ''delete'' [])
                  ''/scans/.pdf'' (demo_world\<lparr>files := [''/scans/.pdf'' \<mapsto> ''%PDF'']\<rparr>))))]
   \<and> title_value
        (last (sent (snd (Upload (demo_sys (\<lambda>n. False) 200) (demo_cfg False ''delete'' [])
                  ''/scans/.pdf'' (demo_world\<lparr>files := [''/scans/.pdf'' \<mapsto> ''%PDF'']\<rparr>)))))
      = []"
proof -
  define e where "e = demo_sys (\<lambda>n. False) 200"
  define cfg where "cfg = demo_cfg False ''delete'' []"
  define w where "w = demo_world\<lparr>files := [''/scans/.pdf'' \<mapsto> ''%PDF'']\<rparr>"
  define U where "U = Upload e cfg ''/scans/.pdf'' w"
  have run: "Upload e cfg ''/scans/.pdf'' w = (fst U, snd U)"
    by (simp add: U_def)
  have s0: "sent (snd U) = [last (sent (snd U))]"
    unfolding U_def e_def cfg_def w_def by code_simp
  have "sent w = []" by (simp add: w_def demo_world_def)
  with s0 have s: "sent (snd U) = sent w @ [last (sent (snd U))]" by simp
  have x: "Ext (Base ''/scans/.pdf'') = Base ''/scans/.pdf''" by code_simp
  have y: "Base ''/scans/.pdf'' = ''.pdf''" by code_simp
  from Upload_title_empty_when_name_is_extension [OF run s x] x y s0
  show ?thesis unfolding U_def e_def cfg_def w_def by simp
qed


text \<open>
  Claim C6, as stated, fails when the backup destination is the source file itself. With
  the backup directory the directory the file is in, a configuration that \<open>Validate\<close>
  accepts, the destination is the source path; with \<open>-dir scans -backup-dir scans\<close> the
  destination \<open>scans/a.pdf\<close> is another path that names the source file
  \<open>/scans/a.pdf\<close>. In both runs the rename succeeds and changes nothing, and the source
  path still exists after a successful upload.
\<close>

theorem Upload_backup_into_own_directory_counterexample:
  "Validate (demo_cfg False AfterUploadBackup ''/scans'') = None
   \<and> Join (BackupDir (demo_cfg False AfterUploadBackup ''/scans'')) (Base ''/scans/a.pdf'')
     = ''/scans/a.pdf''
   \<and> fst (Upload (demo_sys (\<lambda>n. False) 200) (demo_cfg False AfterUploadBackup ''/scans'')
             ''/scans/a.pdf'' demo_world) = Inr ()
   \<and> files (snd (Upload (demo_sys (\<lambda>n. False) 200) (demo_cfg False AfterUploadBackup ''/scans'')
                    ''/scans/a.pdf'' demo_world)) ''/scans/a.pdf'' = Some ''%PDF''
   \<and> Validate (demo_cfg False AfterUploadBackup ''scans'') = None
   \<and> Join (BackupDir (demo_cfg False AfterUploadBackup ''scans'')) (Base ''/scans/a.pdf'')
     = ''scans/a.pdf''
   \<and> resolve (demo_sys (\<lambda>n. False) 200) ''scans/a.pdf''
     = resolve (demo_sys (\<lambda>n. False) 200) ''/scans/a.pdf''
   \<and> fst (Upload (demo_sys (\<lambda>n. False) 200) (demo_cfg False AfterUploadBackup ''scans'')
             ''/scans/a.pdf'' demo_world) = Inr ()
   \<and> files (snd (Upload (demo_sys (\<lambda>n. False) 200) (demo_cfg False AfterUploadBackup ''scans'')
                    ''/scans/a.pdf'' demo_world))
        (resolve (demo_sys (\<lambda>n. False) 200) ''/scans/a.pdf'') = Some ''%PDF''"
  by code_simp

text \<open>
  Claim C6, amended. When \<open>Upload\<close> succeeds with disposition Backup and the backup
  destination (the backup directory joined with the base name of the source) names
  another file than the source path does, the destination holds the content the source
  had and the source path names no file any more. (With rename-to-UUID the temporary
  name is a fresh one: it names neither the source file nor the destination.) This holds
  on both ways through \<open>moveFile\<close>; for the second one: when the rename fails and
  \<open>moveFile\<close> still succeeds, the copy and then the removal of the source have succeeded,
  and the destination holds the content the source had, byte for byte.
\<close>

theorem Upload_backup_moves_source:
  "(Upload e cfg filePath w = (Inr (), w')
      \<and> AfterUpload cfg = AfterUploadBackup
      \<and> resolve e (Join (BackupDir cfg) (Base filePath)) \<noteq> resolve e filePath
      \<and> (RenameToUUID cfg \<longrightarrow>
            resolve e (uploadPath_of e cfg filePath w) \<noteq> resolve e filePath
            \<and> resolve e (uploadPath_of e cfg filePath w)
                \<noteq> resolve e (Join (BackupDir cfg) (Base filePath)))
    \<longrightarrow> files w' (resolve e (Join (BackupDir cfg) (Base filePath)))
          = files w (resolve e filePath)
        \<and> files w (resolve e filePath) \<noteq> None
        \<and> files w' (resolve e filePath) = None)
   \<and> (os_Rename e src dst v = (Inl err, v1)
      \<and> moveFile e src dst v = (Inr (), v') \<and> resolve e src \<noteq> resolve e dst
    \<longrightarrow> (\<exists>v2. copyFile e src dst v1 = (Inr (), v2) \<and> os_Remove e src v2 = (Inr (), v'))
        \<and> files v' (resolve e dst) = files v (resolve e src)
        \<and> files v (resolve e src) \<noteq> None
        \<and> files v' (resolve e src) = None)"
proof (intro conjI impI)
  assume a: "os_Rename e src dst v = (Inl err, v1)
             \<and> moveFile e src dst v = (Inr (), v') \<and> resolve e src \<noteq> resolve e dst"
  then have m: "moveFile e src dst v = (Inr (), v')"
    and ne: "resolve e src \<noteq> resolve e dst" by auto
  from a moveFile_fallback [of e src dst v err v1]
  show "\<exists>v2. copyFile e src dst v1 = (Inr (), v2) \<and> os_Remove e src v2 = (Inr (), v')"
    by (auto split: prod.splits sum.splits)
  from moveFile_ok [OF m ne]
  show "files v' (resolve e dst) = files v (resolve e src)"
    "files v (resolve e src) \<noteq> None" "files v' (resolve e src) = None"
    by auto
next
  define dst where "dst = resolve e (Join (BackupDir cfg) (Base filePath))"
  define up where "up = uploadPath_of e cfg filePath w"
  assume a: "Upload e cfg filePath w = (Inr (), w')
      \<and> AfterUpload cfg = AfterUploadBackup
      \<and> resolve e (Join (BackupDir cfg) (Base filePath)) \<noteq> resolve e filePath
      \<and> (RenameToUUID cfg \<longrightarrow>
            resolve e (uploadPath_of e cfg filePath w) \<noteq> resolve e filePath
            \<and> resolve e (uploadPath_of e cfg filePath w)
                \<noteq> resolve e (Join (BackupDir cfg) (Base filePath)))"
  then have u: "Upload e cfg filePath w = (Inr (), w')"
    and b: "AfterUpload cfg = AfterUploadBackup"
    and ne: "dst \<noteq> resolve e filePath"
    and fresh: "RenameToUUID cfg \<longrightarrow> resolve e up \<noteq> resolve e filePath \<and> resolve e up \<noteq> dst"
    by (auto simp: dst_def up_def)
  have "files w' dst = files w (resolve e filePath) \<and> files w (resolve e filePath) \<noteq> None
        \<and> files w' (resolve e filePath) = None"
  proof -
    from Upload_cases [OF u] consider
      (plain) "upload_from e cfg filePath filePath (Base filePath) w = (Inr (), w')"
    | (nocopy) "uuid_copy_failed (Inr ())"
    | (copied) w1 w2 r3 where "RenameToUUID cfg"
          "copyFile e filePath up w = (Inr (), w1)"
          "upload_from e cfg filePath up (Base filePath) w1 = (Inr (), w2)"
          "os_Remove e up w2 = (r3, w')"
      unfolding up_def by blast
    then show ?thesis
    proof cases
      case plain
      from upload_from_cases [OF plain] obtain w1 where
        pa: "postUploadAction e cfg filePath w1 = (Inr (), w')" and f: "files w1 = files w"
        by auto
      from postUploadAction_backup_ok [OF pa b] ne f show ?thesis
        by (simp add: dst_def)
    next
      case nocopy
      then show ?thesis by simp
    next
      case copied
      from fresh copied(1) have n1: "resolve e filePath \<noteq> resolve e up"
        and n2: "dst \<noteq> resolve e up" by auto
      from upload_from_cases [OF copied(3)] obtain w3 where
        pa: "postUploadAction e cfg filePath w3 = (Inr (), w2)" and f: "files w3 = files w1"
        by auto
      from copyFile_frame [OF copied(2) n1] f
      have src: "files w3 (resolve e filePath) = files w (resolve e filePath)"
        by simp
      from postUploadAction_backup_ok [OF pa b] ne src
      have m: "files w2 dst = files w (resolve e filePath)" "files w (resolve e filePath) \<noteq> None"
        "files w2 (resolve e filePath) = None"
        by (auto simp: dst_def)
      from os_Remove_frame [OF copied(4) n1] os_Remove_frame [OF copied(4) n2] m
      show ?thesis by simp
    qed
  qed
  then show "files w' (resolve e (Join (BackupDir cfg) (Base filePath)))
               = files w (resolve e filePath)"
    "files w (resolve e filePath) \<noteq> None" "files w' (resolve e filePath) = None"
    by (auto simp: dst_def)
qed

theorem Upload_backup_moves_source_witness:
  "fst (Upload (demo_sys (\<lambda>n. n = 7) 200) (demo_cfg True AfterUploadBackup ''backup'')
          ''/scans/a.pdf'' demo_world) = Inr ()
   \<and> resolve (demo_sys (\<lambda>n. n = 7) 200) ''backup/a.pdf'' = ''/backup/a.pdf''
   \<and> resolve (demo_sys (\<lambda>n. n = 7) 200) ''/scans/a.pdf'' = ''/scans/a.pdf''
   \<and> files (snd (Upload (demo_sys (\<lambda>n. n = 7) 200)
                    (demo_cfg True AfterUploadBackup ''backup'')
                    ''/scans/a.pdf'' demo_world)) ''/backup/a.pdf'' = Some ''%PDF''
   \<and> files (snd (Upload (demo_sys (\<lambda>n. n = 7) 200)
                    (demo_cfg True AfterUploadBackup ''backup'')
                    ''/scans/a.pdf'' demo_world)) ''/scans/a.pdf'' = None
   \<and> fst (os_Rename (demo_sys (\<lambda>n. n = 7) 200) ''/scans/a.pdf'' ''backup/a.pdf''
            (demo_world\<lparr>calls := 7\<rparr>)) = Inl (OsError ErrOther)
   \<and> fst (moveFile (demo_sys (\<lambda>n. n = 7) 200) ''/scans/a.pdf'' ''backup/a.pdf''
            (demo_world\<lparr>calls := 7\<rparr>)) = Inr ()
   \<and> files (snd (moveFile (demo_sys (\<lambda>n. n = 7) 200) ''/scans/a.pdf'' ''backup/a.pdf''
                    (demo_world\<lparr>calls := 7\<rparr>))) ''/backup/a.pdf'' = Some ''%PDF''
   \<and> files (snd (moveFile (demo_sys (\<lambda>n. n = 7) 200) ''/scans/a.pdf'' ''backup/a.pdf''
                    (demo_world\<lparr>calls := 7\<rparr>))) ''/scans/a.pdf'' = None"
proof -
  define e where "e = demo_sys (\<lambda>n. n = 7) 200"
  define cfg where "cfg = demo_cfg True AfterUploadBackup ''backup''"
  define U where "U = Upload e cfg ''/scans/a.pdf'' demo_world"
  define v where "v = demo_world\<lparr>calls := 7\<rparr>"
  define R where "R = os_Rename e ''/scans/a.pdf'' ''backup/a.pdf'' v"
  define M where "M = moveFile e ''/scans/a.pdf'' ''backup/a.pdf'' v"
  have ok: "fst U = Inr ()"
    unfolding U_def e_def cfg_def by code_simp
  then have run: "Upload e cfg ''/scans/a.pdf'' demo_world = (Inr (), snd U)"
    by (metis U_def prod.collapse)
  have b: "AfterUpload cfg = AfterUploadBackup"
    by (simp add: cfg_def demo_cfg_def)
  have c: "RenameToUUID cfg"
    by (simp add: cfg_def demo_cfg_def)
  have j: "Join (BackupDir cfg) (Base ''/scans/a.pdf'') = ''backup/a.pdf''"
    unfolding cfg_def by code_simp
  have kd: "resolve e ''backup/a.pdf'' = ''/backup/a.pdf''"
    unfolding e_def by code_simp
  have ks: "resolve e ''/scans/a.pdf'' = ''/scans/a.pdf''"
    unfolding e_def by code_simp
  have p: "resolve e (uploadPath_of e cfg ''/scans/a.pdf'' demo_world) = ''/tmp/0f1e.pdf''"
    unfolding e_def cfg_def by code_simp
  have d: "files demo_world ''/scans/a.pdf'' = Some ''%PDF''"
    by (simp add: demo_world_def)
  have dv: "files v ''/scans/a.pdf'' = Some ''%PDF''"
    by (simp add: v_def demo_world_def)
  have rf: "fst R = Inl (OsError ErrOther)"
    unfolding R_def e_def v_def by code_simp
  then have rn: "os_Rename e ''/scans/a.pdf'' ''backup/a.pdf'' v
                   = (Inl (OsError ErrOther), snd R)"
    by (metis R_def prod.collapse)
  have mo: "fst M = Inr ()"
    unfolding M_def e_def v_def by code_simp
  then have mv: "moveFile e ''/scans/a.pdf'' ''backup/a.pdf'' v = (Inr (), snd M)"
    by (metis M_def prod.collapse)
  note t = Upload_backup_moves_source [of e cfg "''/scans/a.pdf''" demo_world "snd U"
      "''/scans/a.pdf''" "''backup/a.pdf''" v "OsError ErrOther" "snd R" "snd M"]
  from t run b c j kd ks p d have
    "files (snd U) ''/backup/a.pdf'' = Some ''%PDF''"
    "files (snd U) ''/scans/a.pdf'' = None"
    by auto
  moreover from t rn mv dv kd ks have
    "files (snd M) ''/backup/a.pdf'' = Some ''%PDF''"
    "files (snd M) ''/scans/a.pdf'' = None"
    by auto
  ultimately show ?thesis
    using ok rf mo kd ks unfolding U_def R_def M_def e_def cfg_def v_def by blast
qed

text \<open>
  Claim C7, as stated, fails where the removal of the temporary copy itself fails: the
  error is logged as a warning and nothing more, \<open>Upload\<close> returns what it would have
  returned (success here), and the copy stays in the temporary directory.
\<close>

theorem Upload_leaves_copy_when_removal_fails_counterexample:
  "RenameToUUID (demo_cfg True AfterUploadDelete [])
   \<and> uploadPath_of (demo_sys (\<lambda>n. n = 8) 200) (demo_cfg True AfterUploadDelete [])
        ''/scans/a.pdf'' demo_world = ''/tmp/0f1e.pdf''
   \<and> resolve (demo_sys (\<lambda>n. n = 8) 200) ''/tmp/0f1e.pdf'' = ''/tmp/0f1e.pdf''
   \<and> fst (Upload (demo_sys (\<lambda>n. n = 8) 200) (demo_cfg True AfterUploadDelete [])
             ''/scans/a.pdf'' demo_world) = Inr ()
   \<and> files (snd (Upload (demo_sys (\<lambda>n. n = 8) 200) (demo_cfg True AfterUploadDelete [])
                    ''/scans/a.pdf'' demo_world)) ''/tmp/0f1e.pdf'' = Some ''%PDF''"
  by code_simp

text \<open>
  Claim C7, amended. With rename-to-UUID on, on every exit path of \<open>Upload\<close> after the
  temporary copy was made (success, upload failure, disposition failure: every result
  but the failure of the copy itself), the removal of the copy is the last system call
  of the attempt, and when that call does not fail the temporary path names no file
  afterwards.
\<close>

theorem Upload_removes_temporary_copy:
  assumes "Upload e cfg filePath w = (r, w')" and "RenameToUUID cfg"
    and "\<not> uuid_copy_failed r" and "\<not> fails e (calls w' - 1)"
  shows "files w' (resolve e (uploadPath_of e cfg filePath w)) = None"
proof -
  from Upload_cases [OF assms(1)] assms(2,3) obtain w1 w2 r3 where
    rm: "os_Remove e (uploadPath_of e cfg filePath w) w2 = (r3, w')"
    by blast
  from os_Remove_calls [OF rm] assms(4) have "\<not> fails e (calls w2)" by simp
  with os_Remove_no_fault [OF rm] show ?thesis by blast
qed

theorem Upload_removes_temporary_copy_witness:
  "RenameToUUID (demo_cfg True AfterUploadDelete [])
   \<and> fst (Upload (demo_sys (\<lambda>n. n = 7) 200) (demo_cfg True AfterUploadDelete [])
             ''/scans/a.pdf'' demo_world)
        = Inl (Wrapped ''delete after upload'' (OsError ErrOther))
   \<and> \<not> fails (demo_sys (\<lambda>n. n = 7) 200)
          (calls (snd (Upload (demo_sys (\<lambda>n. n = 7) 200) (demo_cfg True AfterUploadDelete [])
                         ''/scans/a.pdf'' demo_world)) - 1)
   \<and> resolve (demo_sys (\<lambda>n. n = 7) 200)
        (uploadPath_of (demo_sys (\<lambda>n. n = 7) 200) (demo_cfg True AfterUploadDelete [])
           ''/scans/a.pdf'' demo_world) = ''/tmp/0f1e.pdf''
   \<and> files (snd (Upload (demo_sys (\<lambda>n. n = 7) 200) (demo_cfg True AfterUploadDelete [])
                    ''/scans/a.pdf'' demo_world)) ''/tmp/0f1e.pdf'' = None"
proof -
  define e where "e = demo_sys (\<lambda>n. n = 7) 200"
  define cfg where "cfg = demo_cfg True AfterUploadDelete []"
  define U where "U = Upload e cfg ''/scans/a.pdf'' demo_world"
  have run: "Upload e cfg ''/scans/a.pdf'' demo_world = (fst U, snd U)"
    by (simp add: U_def)
  have c: "RenameToUUID cfg"
    by (simp add: cfg_def demo_cfg_def)
  have r: "fst U = Inl (Wrapped ''delete after upload'' (OsError ErrOther))"
    unfolding U_def e_def cfg_def by code_simp
  then have n: "\<not> uuid_copy_failed (fst U)" by simp
  have f: "\<not> fails e (calls (snd U) - 1)"
    unfolding U_def e_def cfg_def by code_simp
  have p: "resolve e (uploadPath_of e cfg ''/scans/a.pdf'' demo_world) = ''/tmp/0f1e.pdf''"
    unfolding e_def cfg_def by code_simp
  from Upload_removes_temporary_copy [OF run c n f] p
  have "files (snd U) ''/tmp/0f1e.pdf'' = None" by simp
  with c r f p show ?thesis unfolding U_def e_def cfg_def by blast
qed

lemma copyFile_ok_calls:
  "copyFile e src dst w = (Inr u, w') \<Longrightarrow>
     calls w' = Suc (Suc (Suc (Suc (calls w)))) \<and> \<not> fails e (calls w)
     \<and> \<not> fails e (Suc (calls w)) \<and> \<not> fails e (Suc (Suc (calls w)))
     \<and> \<not> fails e (Suc (Suc (Suc (calls w))))"
  by (auto simp: copyFile_def prim_defs Let_def split: if_splits)

text \<open>
  Claim C10. In \<open>moveFile\<close>, once the rename has failed: if the copy fails, at whichever of
  its steps, \<open>moveFile\<close> returns the copy's error in the state the copy left, without a
  removal; the source still exists, and it holds what it held when source and destination
  name two files. And if the source existed and is gone after \<open>moveFile\<close>, then the copy
  had succeeded, with none of its four system calls (open, create, copy, sync) failing,
  and the removal came after it.
\<close>

theorem moveFile_removes_source_only_after_copy:
  assumes "os_Rename e src dst w = (Inl err, w1)"
  shows "(\<forall>err2 w2. copyFile e src dst w1 = (Inl err2, w2) \<longrightarrow>
            moveFile e src dst w = (Inl err2, w2)
            \<and> (files w (resolve e src) \<noteq> None \<longrightarrow> files w2 (resolve e src) \<noteq> None)
            \<and> (resolve e src \<noteq> resolve e dst \<longrightarrow>
                  files w2 (resolve e src) = files w (resolve e src)))
         \<and> (\<forall>r w'. moveFile e src dst w = (r, w') \<and> files w (resolve e src) \<noteq> None
                    \<and> files w' (resolve e src) = None
              \<longrightarrow> (\<exists>w2. copyFile e src dst w1 = (Inr (), w2)
                        \<and> os_Remove e src w2 = (Inr (), w')
                        \<and> calls w2 = calls w1 + 4
                        \<and> (\<forall>i<4. \<not> fails e (calls w1 + i))))"
proof (intro conjI allI impI)
  note f1 = os_Rename_fail [OF assms]
  {
    fix err2 w2 assume cp: "copyFile e src dst w1 = (Inl err2, w2)"
    with moveFile_fallback [OF assms] show "moveFile e src dst w = (Inl err2, w2)"
      by simp
    {
      assume "files w (resolve e src) \<noteq> None"
      with f1 copyFile_keeps [OF cp, of "resolve e src"]
      show "files w2 (resolve e src) \<noteq> None" by simp
    }
    {
      assume "resolve e src \<noteq> resolve e dst"
      with f1 copyFile_frame [OF cp, of "resolve e src"]
      show "files w2 (resolve e src) = files w (resolve e src)" by simp
    }
  }
  fix r w'
  assume a: "moveFile e src dst w = (r, w') \<and> files w (resolve e src) \<noteq> None
             \<and> files w' (resolve e src) = None"
  obtain r2 w2 where cp: "copyFile e src dst w1 = (r2, w2)" by force
  from a f1 have ex: "files w1 (resolve e src) \<noteq> None" by simp
  have "\<exists>u. r2 = Inr u"
  proof (cases r2)
    case (Inl err2)
    with cp moveFile_fallback [OF assms] a have "w' = w2" by simp
    with copyFile_keeps [OF cp ex] a show ?thesis by simp
  next
    case (Inr u)
    then show ?thesis by simp
  qed
  then have cp': "copyFile e src dst w1 = (Inr (), w2)" using cp by auto
  with moveFile_fallback [OF assms] a have rm: "os_Remove e src w2 = (r, w')" by simp
  have "\<exists>u. r = Inr u"
  proof (cases r)
    case (Inl err3)
    with rm os_Remove_fail have "files w' = files w2" by blast
    with copyFile_keeps [OF cp' ex] a show ?thesis by simp
  next
    case (Inr u)
    then show ?thesis by simp
  qed
  with rm have rm': "os_Remove e src w2 = (Inr (), w')" by auto
  from copyFile_ok_calls [OF cp'] have
    "calls w2 = calls w1 + 4" "\<forall>i<4. \<not> fails e (calls w1 + i)"
    by (auto simp: less_Suc_eq numeral_eq_Suc)
  with cp' rm'
  show "\<exists>w2. copyFile e src dst w1 = (Inr (), w2)
             \<and> os_Remove e src w2 = (Inr (), w')
             \<and> calls w2 = calls w1 + 4
             \<and> (\<forall>i<4. \<not> fails e (calls w1 + i))"
    by blast
qed


theorem moveFile_removes_source_only_after_copy_witness:
  "fst (os_Rename (demo_sys (\<lambda>n. n = 0 \<or> n = 4) 200) ''/scans/a.pdf'' ''/backup/a.pdf''
          demo_world) = Inl (OsError ErrOther)
   \<and> fst (copyFile (demo_sys (\<lambda>n. n = 0 \<or> n = 4) 200) ''/scans/a.pdf'' ''/backup/a.pdf''
            (snd (os_Rename (demo_sys (\<lambda>n. n = 0 \<or> n = 4) 200) ''/scans/a.pdf''
                    ''/backup/a.pdf'' demo_world))) = Inl (OsError ErrOther)
   \<and> fst (moveFile (demo_sys (\<lambda>n. n = 0 \<or> n = 4) 200) ''/scans/a.pdf'' ''/backup/a.pdf''
            demo_world) = Inl (OsError ErrOther)
   \<and> files (snd (moveFile (demo_sys (\<lambda>n. n = 0 \<or> n = 4) 200) ''/scans/a.pdf''
                    ''/backup/a.pdf'' demo_world)) ''/scans/a.pdf'' = Some ''%PDF''
   \<and> fst (os_Rename (demo_sys (\<lambda>n. n = 0) 200) ''/scans/a.pdf'' ''/backup/a.pdf''
            demo_world) = Inl (OsError ErrOther)
   \<and> files (snd (moveFile (demo_sys (\<lambda>n. n = 0) 200) ''/scans/a.pdf'' ''/backup/a.pdf''
                    demo_world)) ''/scans/a.pdf'' = None
   \<and> fst (copyFile (demo_sys (\<lambda>n. n = 0) 200) ''/scans/a.pdf'' ''/backup/a.pdf''
            (snd (os_Rename (demo_sys (\<lambda>n. n = 0) 200) ''/scans/a.pdf''
                    ''/backup/a.pdf'' demo_world))) = Inr ()"
proof -
  define e1 where "e1 = demo_sys (\<lambda>n. n = 0 \<or> n = 4) 200"
  define e2 where "e2 = demo_sys (\<lambda>n. n = 0) 200"
  define R1 where "R1 = os_Rename e1 ''/scans/a.pdf'' ''/backup/a.pdf'' demo_world"
  define C1 where "C1 = copyFile e1 ''/scans/a.pdf'' ''/backup/a.pdf'' (snd R1)"
  define M1 where "M1 = moveFile e1 ''/scans/a.pdf'' ''/backup/a.pdf'' demo_world"
  define R2 where "R2 = os_Rename e2 ''/scans/a.pdf'' ''/backup/a.pdf'' demo_world"
  define C2 where "C2 = copyFile e2 ''/scans/a.pdf'' ''/backup/a.pdf'' (snd R2)"
  define M2 where "M2 = moveFile e2 ''/scans/a.pdf'' ''/backup/a.pdf'' demo_world"
  have d: "files demo_world ''/scans/a.pdf'' = Some ''%PDF''"
    by (simp add: demo_world_def)
  have r1: "fst R1 = Inl (OsError ErrOther)"
    unfolding R1_def e1_def by code_simp
  then have rn1: "os_Rename e1 ''/scans/a.pdf'' ''/backup/a.pdf'' demo_world
                    = (Inl (OsError ErrOther), snd R1)"
    by (metis R1_def prod.collapse)
  have c1: "fst C1 = Inl (OsError ErrOther)"
    unfolding C1_def R1_def e1_def by code_simp
  then have cp1: "copyFile e1 ''/scans/a.pdf'' ''/backup/a.pdf'' (snd R1)
                    = (Inl (OsError ErrOther), snd C1)"
    by (metis C1_def prod.collapse)
  have k: "resolve e1 ''/scans/a.pdf'' = ''/scans/a.pdf''"
    "resolve e2 ''/scans/a.pdf'' = ''/scans/a.pdf''"
    "resolve e1 ''/backup/a.pdf'' = ''/backup/a.pdf''"
    unfolding e1_def e2_def by code_simp+
  from moveFile_removes_source_only_after_copy [OF rn1] cp1 d k
  have m1: "M1 = (Inl (OsError ErrOther), snd C1)"
    and k1: "files (snd C1) ''/scans/a.pdf'' = Some ''%PDF''"
    unfolding M1_def by auto
  have r2: "fst R2 = Inl (OsError ErrOther)"
    unfolding R2_def e2_def by code_simp
  then have rn2: "os_Rename e2 ''/scans/a.pdf'' ''/backup/a.pdf'' demo_world
                    = (Inl (OsError ErrOther), snd R2)"
    by (metis R2_def prod.collapse)
  have g2: "files (snd M2) ''/scans/a.pdf'' = None"
    unfolding M2_def e2_def by code_simp
  have mv2: "moveFile e2 ''/scans/a.pdf'' ''/backup/a.pdf'' demo_world = (fst M2, snd M2)"
    by (simp add: M2_def)
  have g2': "files (snd M2) (resolve e2 ''/scans/a.pdf'') = None"
    and d': "files demo_world (resolve e2 ''/scans/a.pdf'') \<noteq> None"
    using g2 d k by simp_all
  from moveFile_removes_source_only_after_copy [OF rn2] mv2 g2' d'
  have "\<exists>w2. copyFile e2 ''/scans/a.pdf'' ''/backup/a.pdf'' (snd R2) = (Inr (), w2)"
    by blast
  then have c2: "fst C2 = Inr ()" unfolding C2_def by auto
  from r1 c1 m1 k1 r2 g2 c2 show ?thesis
    unfolding R1_def C1_def M1_def R2_def C2_def M2_def e1_def e2_def by simp
qed

section \<open>Properties of the debounce loop\<close>

lemma sint_succ: "sint (g::64 word) < 2^63 - 1 \<Longrightarrow> sint (g + 1) = sint g + 1"
proof -
  assume a: "sint g < 2^63 - 1"
  have lo: "- (2 ^ 63) \<le> sint g" using sint_ge [of g] by simp
  have "sint (g + 1) = signed_take_bit 63 (sint g + sint (1::64 word))"
    using sint_word_ariths(1) [of g 1] by simp
  also have "\<dots> = signed_take_bit 63 (sint g + 1)" by simp
  also have "\<dots> = sint g + 1"
    using a lo by (intro signed_take_bit_int_eq_self) auto
  finally show ?thesis .
qed

lemma gen_of_timer_Stop: "gen_of (timer_Stop h s) p = gen_of s p"
  by (simp add: gen_of_def timer_Stop_def)

lemma on_event_gen:
  assumes "op AND (Create OR Write) \<noteq> 0" and "Abs env name = Some p"
  shows "gen_of (on_event env op name s) p = gen_of s p + 1"
    and "q \<noteq> p \<Longrightarrow> gen_of (on_event env op name s) q = gen_of s q"
    and "armed (on_event env op name s) \<noteq> []"
    and "snd (snd (last (armed (on_event env op name s))))
           = \<lparr>msg_path = p, msg_gen = gen_of s p + 1\<rparr>"
    and "fst (snd (last (armed (on_event env op name s)))) = clock s + debounceDelay"
  using assms
  by (auto simp: on_event_def Let_def gen_of_def timer_Stop_def split: option.splits)


subsection \<open>Lists with one element of a kind\<close>





subsection \<open>Timer handles\<close>








lemma run_append: "run env exts (as @ bs) s = run env exts bs (run env exts as s)"
  by (simp add: run_def)

subsection \<open>Steps that are not the business of a path\<close>

lemmas for_defs = armed_for_def sending_for_def queued_for_def records_for_def out_for_def


lemma on_timer_msg_same:
  "msg_path m \<noteq> p \<Longrightarrow> same_for p s (on_timer_msg env exts m s)"
  by (auto simp: same_for_def for_defs on_timer_msg_def Let_def
      split: prod.splits bool.splits)







subsection \<open>The phases under a step\<close>













text \<open>The loop handles an event of the path: the timer before it is stopped.\<close>

lemma armed_for_stop_append:
  "armed_for p (s\<lparr>armed := filter (\<lambda>t. fst t \<noteq> h) (armed s) @ [x]\<rparr>)
     = filter (\<lambda>t. fst t \<noteq> h) (armed_for p s) @ (if msg_path (snd (snd x)) = p then [x] else [])"
proof -
  have "filter (\<lambda>t. msg_path (snd (snd t)) = p) (filter (\<lambda>t. fst t \<noteq> h) (armed s))
          = filter (\<lambda>t. fst t \<noteq> h) (filter (\<lambda>t. msg_path (snd (snd t)) = p) (armed s))"
    unfolding filter_filter by (intro filter_cong) auto
  then show ?thesis by (simp add: armed_for_def)
qed


subsection \<open>A burst handled inside the delay, and what follows it\<close>












text \<open>
  Claim C2. When the loop handles a create or write event for a path \<open>p\<close>, the
  generation of \<open>p\<close> becomes the old one plus one, which is greater (as long as the
  64-bit counter is below its largest value), the generations of the other paths stay,
  and the timer armed for the event carries the new generation. When the loop receives
  a timer message whose generation is not the current one of its path, it does nothing
  but take the message from the channel: nothing is sent on \<open>out\<close>, nothing is logged,
  and both maps are as before.
\<close>

theorem generation_increases_and_stale_message_is_dropped:
  "(\<not> halted s \<and> op AND (Create OR Write) \<noteq> 0 \<and> Abs env name = Some p
      \<and> sint (gen_of s p) < 9223372036854775807
    \<longrightarrow> gen_of (step env exts (Event op name) s) p = gen_of s p + 1
        \<and> sint (gen_of s p) < sint (gen_of (step env exts (Event op name) s) p)
        \<and> (\<forall>q. q \<noteq> p \<longrightarrow> gen_of (step env exts (Event op name) s) q = gen_of s q)
        \<and> snd (snd (last (armed (step env exts (Event op name) s))))
            = \<lparr>msg_path = p, msg_gen = gen_of (step env exts (Event op name) s) p\<rparr>)
   \<and> (\<not> halted s \<and> timerCh s = msg # rest \<and> gen_of s (msg_path msg) \<noteq> msg_gen msg
    \<longrightarrow> step env exts TimerMsg s = s\<lparr>timerCh := rest\<rparr>
        \<and> out (step env exts TimerMsg s) = out s
        \<and> logged (step env exts TimerMsg s) = logged s
        \<and> timers (step env exts TimerMsg s) = timers s
        \<and> gens (step env exts TimerMsg s) = gens s)"
proof (intro conjI impI)
  assume a: "\<not> halted s \<and> op AND (Create OR Write) \<noteq> 0 \<and> Abs env name = Some p
             \<and> sint (gen_of s p) < 9223372036854775807"
  then have st: "step env exts (Event op name) s = on_event env op name s" by simp
  from a have c: "op AND (Create OR Write) \<noteq> 0" "Abs env name = Some p" by auto
  from a have "sint (gen_of s p) < 2 ^ 63 - 1" by simp
  from sint_succ [OF this] have up: "sint (gen_of s p) < sint (gen_of s p + 1)" by simp
  from on_event_gen(1) [OF c, of s] st
  show g: "gen_of (step env exts (Event op name) s) p = gen_of s p + 1" by simp
  with up show "sint (gen_of s p) < sint (gen_of (step env exts (Event op name) s) p)"
    by simp
  from on_event_gen(2) [OF c, of _ s] st
  show "\<forall>q. q \<noteq> p \<longrightarrow> gen_of (step env exts (Event op name) s) q = gen_of s q" by simp
  from on_event_gen(4) [OF c, of s] st g
  show "snd (snd (last (armed (step env exts (Event op name) s))))
          = \<lparr>msg_path = p, msg_gen = gen_of (step env exts (Event op name) s) p\<rparr>"
    by simp
next
  assume a: "\<not> halted s \<and> timerCh s = msg # rest \<and> gen_of s (msg_path msg) \<noteq> msg_gen msg"
  then have "gen_of (s\<lparr>timerCh := rest\<rparr>) (msg_path msg) \<noteq> msg_gen msg"
    by (simp add: gen_of_def)
  with a show e: "step env exts TimerMsg s = s\<lparr>timerCh := rest\<rparr>"
    by (simp add: on_timer_msg_def)
  then show "out (step env exts TimerMsg s) = out s"
    "logged (step env exts TimerMsg s) = logged s"
    "timers (step env exts TimerMsg s) = timers s"
    "gens (step env exts TimerMsg s) = gens s"
    by simp_all
qed


theorem generation_increases_and_stale_message_is_dropped_witness:
  "\<not> halted (run demo_env {} [Event Create ''/watch/doc.pdf'', Elapse 750, Expire 0, Send 0,
                               Event Write ''/watch/doc.pdf''] (start 0))
   \<and> Write AND (Create OR Write) \<noteq> 0
   \<and> Abs demo_env ''/watch/doc.pdf'' = Some ''/watch/doc.pdf''
   \<and> gen_of (run demo_env {} [Event Create ''/watch/doc.pdf'', Elapse 750, Expire 0, Send 0,
                              Event Write ''/watch/doc.pdf''] (start 0)) ''/watch/doc.pdf'' = 2
   \<and> timerCh (run demo_env {} [Event Create ''/watch/doc.pdf'', Elapse 750, Expire 0, Send 0,
                               Event Write ''/watch/doc.pdf''] (start 0))
      = [\<lparr>msg_path = ''/watch/doc.pdf'', msg_gen = 1\<rparr>]
   \<and> gen_of (step demo_env {} (Event Write ''/watch/doc.pdf'')
               (run demo_env {} [Event Create ''/watch/doc.pdf'', Elapse 750, Expire 0, Send 0,
                                 Event Write ''/watch/doc.pdf''] (start 0)))
        ''/watch/doc.pdf'' = 3
   \<and> out (step demo_env {} TimerMsg
            (run demo_env {} [Event Create ''/watch/doc.pdf'', Elapse 750, Expire 0, Send 0,
                              Event Write ''/watch/doc.pdf''] (start 0))) = []
   \<and> logged (step demo_env {} TimerMsg
               (run demo_env {} [Event Create ''/watch/doc.pdf'', Elapse 750, Expire 0, Send 0,
                                 Event Write ''/watch/doc.pdf''] (start 0))) = []
   \<and> gen_of (step demo_env {} TimerMsg
               (run demo_env {} [Event Create ''/watch/doc.pdf'', Elapse 750, Expire 0, Send 0,
                                 Event Write ''/watch/doc.pdf''] (start 0)))
        ''/watch/doc.pdf'' = 2"
proof -
  define S where "S = run demo_env {} [Event Create ''/watch/doc.pdf'', Elapse 750, Expire 0,
                                       Send 0, Event Write ''/watch/doc.pdf''] (start 0)"
  have a: "\<not> halted S" unfolding S_def by code_simp
  have b: "Write AND (Create OR Write) \<noteq> 0" by code_simp
  have c: "Abs demo_env ''/watch/doc.pdf'' = Some ''/watch/doc.pdf''" by code_simp
  have d: "gen_of S ''/watch/doc.pdf'' = 2" unfolding S_def by code_simp
  then have d': "sint (gen_of S ''/watch/doc.pdf'') < 9223372036854775807" by simp
  have e: "timerCh S = [\<lparr>msg_path = ''/watch/doc.pdf'', msg_gen = 1\<rparr>]"
    unfolding S_def by code_simp
  have f: "out S = []" "logged S = []" unfolding S_def by code_simp+
  note t = generation_increases_and_stale_message_is_dropped
    [of S _ demo_env "''/watch/doc.pdf''" "''/watch/doc.pdf''" "{}"
        "\<lparr>msg_path = ''/watch/doc.pdf'', msg_gen = 1\<rparr>" "[]"]
  from t [of Write] a b c d d'
  have g: "gen_of (step demo_env {} (Event Write ''/watch/doc.pdf'') S) ''/watch/doc.pdf'' = 3"
    by simp
  from t [of Write] a d e
  have h: "step demo_env {} TimerMsg S = S\<lparr>timerCh := []\<rparr>"
    by simp
  then have "out (step demo_env {} TimerMsg S) = []" "logged (step demo_env {} TimerMsg S) = []"
    "gen_of (step demo_env {} TimerMsg S) ''/watch/doc.pdf'' = 2"
    using f d by (simp_all add: gen_of_def)
  with a b c d e g show ?thesis unfolding S_def by blast
qed
end
